theory Spec2Isabelle
  imports Main "HOL-Library.Sublist" "HOL-Library.Char_ord" "HOL-Library.List_Lexorder"
begin

section \<open>JavaScript strings and arrays, as far as App.js uses them\<close>

text \<open>
  A JavaScript string is modelled as a \<^typ>\<open>string\<close>; one \<^typ>\<open>char\<close> stands for one
  UTF-16 code unit in the range U+0000 .. U+00FF. The functions below are the parts of
  the String and Array prototypes that \<^verbatim>\<open>src/src/App.js\<close> calls.
\<close>

definition isWhiteSpace :: "char \<Rightarrow> bool" where
  \<comment> \<open>WhiteSpace and LineTerminator of ECMAScript below U+0100, by code unit: TAB, LF, VT, FF,
      CR, SP, NBSP.\<close>
  "isWhiteSpace c = ((of_char c :: nat) \<in> {9, 10, 11, 12, 13, 32, 160})"

definition trimStart :: "string \<Rightarrow> string" where
  "trimStart s = dropWhile isWhiteSpace s"

definition trimEnd :: "string \<Rightarrow> string" where
  "trimEnd s = rev (dropWhile isWhiteSpace (rev s))"

definition trim :: "string \<Rightarrow> string" where
  \<comment> \<open>\<^verbatim>\<open>String.prototype.trim\<close>: white space is removed from both ends.\<close>
  "trim s = trimEnd (trimStart s)"

definition toLowerChar :: "char \<Rightarrow> char" where
  \<comment> \<open>A..Z and the Latin-1 capitals U+00C0 .. U+00DE (without the multiplication sign
      U+00D7) move up by 32; every other code unit below U+0100 is kept.\<close>
  "toLowerChar c =
     (let n = (of_char c :: nat)
      in if (65 \<le> n \<and> n \<le> 90) \<or> (192 \<le> n \<and> n \<le> 222 \<and> n \<noteq> 215)
         then char_of (n + 32) else c)"

definition toLowerCase :: "string \<Rightarrow> string" where
  "toLowerCase s = map toLowerChar s"

fun join :: "string \<Rightarrow> string list \<Rightarrow> string" where
  "join sep [] = []"
| "join sep [x] = x"
| "join sep (x # y # ys) = x @ sep @ join sep (y # ys)"

fun str_includes :: "string \<Rightarrow> string \<Rightarrow> bool" where
  \<comment> \<open>\<^verbatim>\<open>s.includes(q)\<close>: \<open>q\<close> starts at some position of \<open>s\<close>.\<close>
  "str_includes [] q = (q = [])"
| "str_includes (c # s) q = (prefix q (c # s) \<or> str_includes s q)"

definition push :: "string list \<Rightarrow> string \<Rightarrow> string list" where
  \<comment> \<open>\<^verbatim>\<open>lines.push(x)\<close>, returning the array after the push.\<close>
  "push lines x = lines @ [x]"

definition or_string :: "string \<Rightarrow> string \<Rightarrow> string" where
  \<comment> \<open>\<^verbatim>\<open>a || b\<close> on strings: the empty string is the only falsy string.\<close>
  "or_string a b = (if a = [] then b else a)"

fun or_str :: "string option \<Rightarrow> string" where
  \<comment> \<open>\<^verbatim>\<open>t.field || ''\<close> for a string field that may be absent.\<close>
  "or_str None = []"
| "or_str (Some s) = s"

fun or_empty :: "'a list option \<Rightarrow> 'a list" where
  \<comment> \<open>\<^verbatim>\<open>t.field || []\<close> for an array field that may be absent (an array, also the
      empty one, is truthy).\<close>
  "or_empty None = []"
| "or_empty (Some xs) = xs"

fun join_item :: "string option \<Rightarrow> string" where
  \<comment> \<open>\<^verbatim>\<open>Array.prototype.join\<close> renders an undefined element as the empty string.\<close>
  "join_item None = []"
| "join_item (Some s) = s"

fun interpolate :: "string option \<Rightarrow> string" where
  \<comment> \<open>A value inside a template literal: an undefined one reads \<^verbatim>\<open>undefined\<close>.\<close>
  "interpolate None = ''undefined''"
| "interpolate (Some s) = s"

definition digit_char :: "nat \<Rightarrow> char" where
  \<comment> \<open>Only called with \<open>d < 10\<close>.\<close>
  "digit_char d = ''0123456789'' ! d"

fun string_of_nat :: "nat \<Rightarrow> string" where
  \<comment> \<open>The decimal digits of a non-negative integer, as a template literal prints it.\<close>
  "string_of_nat n =
     (if n < 10 then [digit_char n] else string_of_nat (n div 10) @ [digit_char (n mod 10)])"

declare string_of_nat.simps [simp del]

definition array_from_set :: "'a list \<Rightarrow> 'a list" where
  \<comment> \<open>\<^verbatim>\<open>Array.from(new Set(xs))\<close>: a Set keeps the first occurrence of every
      element, in insertion order.\<close>
  "array_from_set xs = fold (\<lambda>x acc. if x \<in> set acc then acc else acc @ [x]) xs []"

section \<open>The data model\<close>

text \<open>
  A template is an object with the fields \<^verbatim>\<open>id, name, tags, context, task, rules,
  format, examples\<close>. A collection read from storage or from an imported file is not
  validated, so every field may be absent (\<^term>\<open>None\<close>); a field that is present has
  the type the editor gives it.
\<close>

record template =
  t_id :: "string option"
  t_name :: "string option"
  t_tags :: "string list option"
  t_context :: "string option"
  t_task :: "string option"
  t_rules :: "string list option"
  t_format :: "string option"
  t_examples :: "string list option"

text \<open>
  The state of the \<^verbatim>\<open>App\<close> component: the collection, the template the draft is
  linked to (\<^verbatim>\<open>active\<close>, \<^verbatim>\<open>null\<close> for none), the seven draft fields, the two query
  inputs, the library switch, and the messages shown by \<^verbatim>\<open>alert\<close> so far.
\<close>

record app =
  templates :: "template list"
  active :: "template option"
  d_name :: string
  d_tags :: "string list"
  d_context :: string
  d_task :: string
  d_rules :: "string list"
  d_format :: string
  d_examples :: "string list"
  search :: string
  tagFilter :: string
  showLibrary :: bool
  alerts :: "string list"

text \<open>
  What \<^verbatim>\<open>JSON.parse\<close> returns: an array of template objects, or a value that is not an
  array (kept as its JSON text). \<^verbatim>\<open>JSON.parse\<close> and \<^verbatim>\<open>JSON.stringify\<close> belong to the
  platform; the operations that call them take them as parameters. A parser returns
  \<^term>\<open>Inl msg\<close> where \<^verbatim>\<open>JSON.parse\<close> throws a SyntaxError with message \<open>msg\<close>.
\<close>

datatype jsvalue = JArray "template list" | JNotArray string

type_synonym json_parse = "string \<Rightarrow> string + jsvalue"

type_synonym json_stringify = "jsvalue \<Rightarrow> string"

definition DEFAULT_TEMPLATES :: "template list" where
  "DEFAULT_TEMPLATES =
   [\<lparr>t_id = Some ''research-brief'', t_name = Some ''Research Brief'',
     t_tags = Some [''research'', ''analysis''],
     t_context = Some ''You are an expert researcher synthesizing credible sources into concise, actionable insights.'',
     t_task = Some ''Analyze the topic and produce a structured brief with key findings and implications.'',
     t_rules = Some [''Cite facts with source names.'', ''Be concise and neutral.'', ''Call out uncertainty.''],
     t_format = Some ''Sections: Summary, Key Findings, Risks/Unknowns, References'',
     t_examples = Some [''Example: For ETH staking, summarize yield ranges, slashing risks, providers, and regs.'']\<rparr>,
    \<lparr>t_id = Some ''code-review'', t_name = Some ''Code Review Helper'',
     t_tags = Some [''coding'', ''review''],
     t_context = Some ''You are a senior engineer reviewing a PR for correctness and maintainability.'',
     t_task = Some ''Identify issues, suggest concrete fixes, and note potential refactors.'',
     t_rules = Some [''Be specific with file/line when possible.'', ''Prefer minimal, safe edits.'', ''Explain rationale.''],
     t_format = Some ''Sections: Summary, Issues, Suggestions, Tests to Add'',
     t_examples = Some [''Example: Identify unreachable branches and suggest guard clauses.'']\<rparr>,
    \<lparr>t_id = Some ''brainstorm'', t_name = Some ''Brainstorming'',
     t_tags = Some [''ideation'', ''creative''],
     t_context = Some ''You are a creative partner producing unconventional but feasible ideas.'',
     t_task = Some ''Generate options that vary by complexity, cost, and risk.'',
     t_rules = Some [''List pros/cons for each idea.'', ''Include one weird but plausible idea.''],
     t_format = Some ''Table: Idea, Rationale, Pros, Cons, Next Step'',
     t_examples = Some [''Example: Growth ideas for a niche DeFi analytics tool.'']\<rparr>]"

definition STORAGE_KEYS_TEMPLATES :: string where
  "STORAGE_KEYS_TEMPLATES = ''apt.templates.v1''"

section \<open>Reading the persisted collection\<close>

text \<open>
  The initial state of \<^verbatim>\<open>useLocalStorageTemplates\<close> (lines 28 to 31). The store is a map
  from keys to strings; \<^verbatim>\<open>getItem\<close> of a missing key is \<^verbatim>\<open>null\<close>. The body of the
  \<^verbatim>\<open>try\<close> returns \<^term>\<open>Inl msg\<close> where it throws; the \<^verbatim>\<open>catch\<close> returns the seeds.
\<close>

definition load_try :: "json_parse \<Rightarrow> (string \<rightharpoonup> string) \<Rightarrow> string + jsvalue" where
  "load_try JSON_parse localStorage =
     (let raw = localStorage STORAGE_KEYS_TEMPLATES
      in case raw of
           None \<Rightarrow> Inr (JArray DEFAULT_TEMPLATES)
         | Some r \<Rightarrow> if r \<noteq> [] then JSON_parse r else Inr (JArray DEFAULT_TEMPLATES))"

definition useLocalStorageTemplates :: "json_parse \<Rightarrow> (string \<rightharpoonup> string) \<Rightarrow> jsvalue" where
  "useLocalStorageTemplates JSON_parse localStorage =
     (case load_try JSON_parse localStorage of
        Inr v \<Rightarrow> v
      | Inl _ \<Rightarrow> JArray DEFAULT_TEMPLATES)"

section \<open>The template library: all tags and the filter\<close>

definition allTags :: "template list \<Rightarrow> string list" where
  \<comment> \<open>Line 102. The default \<^verbatim>\<open>sort()\<close> orders strings by their code units.\<close>
  "allTags ts = sort (array_from_set (concat (map (\<lambda>t. or_empty (t_tags t)) ts)))"

definition searchable :: "template \<Rightarrow> string" where
  \<comment> \<open>Line 107: the array that is joined with single spaces.\<close>
  "searchable t =
     join '' '' ([join_item (t_name t), join_item (t_context t), join_item (t_task t),
                  join_item (t_format t)] @ or_empty (t_rules t) @ or_empty (t_examples t))"

definition filtered :: "template list \<Rightarrow> string \<Rightarrow> string \<Rightarrow> template list" where
  \<comment> \<open>Lines 103 to 111. \<open>srch\<close> and \<open>tagF\<close> are the two input values, always strings.\<close>
  "filtered ts srch tagF =
     (let q = trim (toLowerCase (or_string srch []));
          tg = trim (toLowerCase (or_string tagF []))
      in filter (\<lambda>t.
           let inText = (q = [] \<or> str_includes (toLowerCase (searchable t)) q);
               inTag = (tg = [] \<or> list_ex (\<lambda>x. str_includes (toLowerCase x) tg) (or_empty (t_tags t)))
           in inText \<and> inTag) ts)"

section \<open>The prompt assembler\<close>

definition assembled :: "app \<Rightarrow> string" where
  \<comment> \<open>Lines 170 to 178. A string is truthy when it is not empty, an array length when
      it is not zero.\<close>
  "assembled st =
     (let lines0 = [];
          lines1 = (if d_context st \<noteq> []
                    then push (push (push lines0 ''Context:'') (trim (d_context st))) []
                    else lines0);
          lines2 = (if d_task st \<noteq> []
                    then push (push (push lines1 ''Task:'') (trim (d_task st))) []
                    else lines1);
          lines3 = (if length (d_rules st) \<noteq> 0
                    then push (fold (\<lambda>r ls. push ls (''- '' @ r)) (d_rules st) (push lines2 ''Rules:'')) []
                    else lines2);
          lines4 = (if d_format st \<noteq> []
                    then push (push (push lines3 ''Format:'') (trim (d_format st))) []
                    else lines3);
          lines5 = (if length (d_examples st) \<noteq> 0
                    then push (fold (\<lambda>ex ls. push ls (''- '' @ ex)) (d_examples st) (push lines4 ''Examples:'')) []
                    else lines4)
      in trim (join ''\<newline>'' lines5))"

section \<open>The editor\<close>

definition resetEditor :: "app \<Rightarrow> app" where
  \<comment> \<open>Line 180.\<close>
  "resetEditor st =
     st\<lparr>active := None, d_name := [], d_tags := [], d_context := [], d_task := [],
        d_rules := [], d_format := [], d_examples := []\<rparr>"

definition active_id :: "app \<Rightarrow> string option" where
  \<comment> \<open>\<^verbatim>\<open>active?.id\<close>: undefined when \<^verbatim>\<open>active\<close> is null or has no id.\<close>
  "active_id st = (case active st of None \<Rightarrow> None | Some a \<Rightarrow> t_id a)"

definition save_id :: "nat \<Rightarrow> app \<Rightarrow> string" where
  \<comment> \<open>Line 182. \<open>now\<close> is the value of \<^verbatim>\<open>Date.now()\<close>. \<^verbatim>\<open>active?.id\<close> is truthy when
      it is a non-empty string.\<close>
  "save_id now st =
     (case active_id st of
        Some i \<Rightarrow> if i \<noteq> [] \<and> i \<noteq> ''unsaved'' then i else string_of_nat now
      | None \<Rightarrow> string_of_nat now)"

definition save_next :: "nat \<Rightarrow> app \<Rightarrow> template" where
  \<comment> \<open>Line 183.\<close>
  "save_next now st =
     \<lparr>t_id = Some (save_id now st), t_name = Some (or_string (d_name st) ''Untitled''),
      t_tags = Some (d_tags st), t_context = Some (d_context st), t_task = Some (d_task st),
      t_rules = Some (d_rules st), t_format = Some (d_format st),
      t_examples = Some (d_examples st)\<rparr>"

definition saveTemplate :: "nat \<Rightarrow> app \<Rightarrow> app" where
  \<comment> \<open>Lines 181 to 187.\<close>
  "saveTemplate now st =
     (let ident = save_id now st;
          next = save_next now st;
          exists = list_ex (\<lambda>t. t_id t = Some ident) (templates st);
          updated = (if exists
                     then map (\<lambda>t. if t_id t = Some ident then next else t) (templates st)
                     else next # templates st)
      in st\<lparr>templates := updated, active := Some next\<rparr>)"

definition applyTemplate :: "template \<Rightarrow> app \<Rightarrow> app" where
  \<comment> \<open>Line 188.\<close>
  "applyTemplate t st =
     st\<lparr>active := Some t, d_name := or_str (t_name t), d_tags := or_empty (t_tags t),
        d_context := or_str (t_context t), d_task := or_str (t_task t),
        d_rules := or_empty (t_rules t), d_format := or_str (t_format t),
        d_examples := or_empty (t_examples t), showLibrary := False\<rparr>"

definition editTemplate :: "template \<Rightarrow> app \<Rightarrow> app" where
  \<comment> \<open>Line 189.\<close>
  "editTemplate t st = applyTemplate t st"

definition delete_prompt :: "template \<Rightarrow> string" where
  \<comment> \<open>The text of the confirmation prompt of line 190.\<close>
  "delete_prompt t = ''Delete template '' @ [CHR 0x22] @ interpolate (t_name t) @ [CHR 0x22] @ ''?''"

definition deleteTemplate :: "(string \<Rightarrow> bool) \<Rightarrow> template \<Rightarrow> app \<Rightarrow> app" where
  \<comment> \<open>Line 190. \<open>confirm\<close> is \<^verbatim>\<open>window.confirm\<close>: the user's answer to the prompt.\<close>
  "deleteTemplate confirm t st =
     (if \<not> confirm (delete_prompt t) then st
      else
        let st1 = st\<lparr>templates := filter (\<lambda>x. t_id x \<noteq> t_id t) (templates st)\<rparr>
        in if active_id st = t_id t then resetEditor st1 else st1)"

definition newTemplate :: "app \<Rightarrow> app" where
  \<comment> \<open>Line 191.\<close>
  "newTemplate st = (resetEditor st)\<lparr>showLibrary := False\<rparr>"

section \<open>Export and import\<close>

definition exportTemplates :: "json_stringify \<Rightarrow> app \<Rightarrow> string" where
  \<comment> \<open>Line 192: the text of the downloaded file. \<open>JSON_stringify\<close> is
      \<^verbatim>\<open>v \<mapsto> JSON.stringify(v, null, 2)\<close>.\<close>
  "exportTemplates JSON_stringify st = JSON_stringify (JArray (templates st))"

definition alert :: "string \<Rightarrow> app \<Rightarrow> app" where
  "alert msg st = st\<lparr>alerts := alerts st @ [msg]\<rparr>"

definition import_try :: "json_parse \<Rightarrow> string \<Rightarrow> app \<Rightarrow> string + app" where
  \<comment> \<open>The \<^verbatim>\<open>try\<close> block of line 193; \<^term>\<open>Inl msg\<close> is a thrown error with that message.\<close>
  "import_try JSON_parse result st =
     (case JSON_parse result of
        Inl msg \<Rightarrow> Inl msg
      | Inr data \<Rightarrow>
          (case data of
             JArray ts \<Rightarrow> Inr (st\<lparr>templates := ts\<rparr>)
           | JNotArray _ \<Rightarrow> Inl ''Invalid file''))"

definition importTemplates :: "json_parse \<Rightarrow> string \<Rightarrow> app \<Rightarrow> app" where
  \<comment> \<open>Line 193, run when the file has been read: \<open>result\<close> is \<^verbatim>\<open>reader.result\<close>.\<close>
  "importTemplates JSON_parse result st =
     (case import_try JSON_parse result st of
        Inr st' \<Rightarrow> st'
      | Inl msg \<Rightarrow> alert (''Import failed: '' @ msg) st)"

section \<open>The specification's wording, as definitions\<close>

text \<open>
  The assembler as the specification describes it: five sections in a fixed order, each
  either absent or a header, its content and one empty separator line; the joined text
  loses its trailing white space. A string section is absent when its field is the empty
  string, a list section when its sequence is empty.
\<close>

definition string_section :: "string \<Rightarrow> string \<Rightarrow> string list" where
  "string_section header s = (if s = [] then [] else [header, trim s, []])"

definition list_section :: "string \<Rightarrow> string list \<Rightarrow> string list" where
  "list_section header items =
     (if items = [] then [] else header # map (\<lambda>i. ''- '' @ i) items @ [[]])"

definition spec_lines :: "app \<Rightarrow> string list" where
  "spec_lines st =
     string_section ''Context:'' (d_context st) @ string_section ''Task:'' (d_task st) @
     list_section ''Rules:'' (d_rules st) @ string_section ''Format:'' (d_format st) @
     list_section ''Examples:'' (d_examples st)"

definition spec_assemble :: "app \<Rightarrow> string" where
  "spec_assemble st = trimEnd (join ''\<newline>'' (spec_lines st))"

definition headers :: "string list" where
  "headers = [''Context:'', ''Task:'', ''Rules:'', ''Format:'', ''Examples:'']"

text \<open>
  The filter as the specification describes it. A query is blank when it is empty or
  holds white space only; otherwise the query, in lower case and without the white space
  at its ends, has to occur in the lower-case text (\<^const>\<open>sublist\<close> is the
  mathematical notion: the text is some prefix, the query, some suffix).
\<close>

definition whitespace_only :: "string \<Rightarrow> bool" where
  "whitespace_only s = list_all isWhiteSpace s"

definition spec_query :: "string \<Rightarrow> string" where
  "spec_query q = trim (toLowerCase q)"

definition spec_passes_text :: "template \<Rightarrow> string \<Rightarrow> bool" where
  "spec_passes_text t textQuery =
     (whitespace_only textQuery \<or> sublist (spec_query textQuery) (toLowerCase (searchable t)))"

definition spec_passes_tag :: "template \<Rightarrow> string \<Rightarrow> bool" where
  "spec_passes_tag t tagQuery =
     (whitespace_only tagQuery \<or>
      (\<exists>x \<in> set (or_empty (t_tags t)). sublist (spec_query tagQuery) (toLowerCase x)))"

text \<open>A template with every absent sequence field replaced by the empty sequence.\<close>

definition fill_absent :: "template \<Rightarrow> template" where
  "fill_absent t =
     t\<lparr>t_tags := Some (or_empty (t_tags t)), t_rules := Some (or_empty (t_rules t)),
       t_examples := Some (or_empty (t_examples t))\<rparr>"

section \<open>Example inputs\<close>

text \<open>
  The state of the application on first load with an empty store, and the state after
  the seed template \<^verbatim>\<open>code-review\<close> has been opened and its task edited.
\<close>

definition initial_app :: app where
  "initial_app =
     \<lparr>templates = DEFAULT_TEMPLATES, active = None, d_name = [], d_tags = [],
      d_context = [], d_task = [], d_rules = [], d_format = [], d_examples = [],
      search = [], tagFilter = [], showLibrary = True, alerts = []\<rparr>"

definition code_review :: template where
  "code_review = DEFAULT_TEMPLATES ! 1"

definition editing_app :: app where
  "editing_app = (applyTemplate code_review initial_app)\<lparr>d_task := ''Review the diff.''\<rparr>"

definition coding_template :: template where
  "coding_template =
     \<lparr>t_id = Some ''1'', t_name = Some ''code'', t_tags = Some [''coding''],
      t_context = Some [], t_task = Some [], t_rules = Some [], t_format = Some [],
      t_examples = Some []\<rparr>"

definition ab_template :: template where
  "ab_template =
     \<lparr>t_id = Some ''2'', t_name = Some ''a'', t_tags = Some [], t_context = Some ''b'',
      t_task = Some [], t_rules = Some [], t_format = Some [], t_examples = Some []\<rparr>"

definition bare_template :: template where
  "bare_template =
     \<lparr>t_id = Some ''b'', t_name = Some ''Bare Note'', t_tags = None, t_context = Some ''Short.'',
      t_task = None, t_rules = None, t_format = None, t_examples = None\<rparr>"

text \<open>
  Two documents and what \<^verbatim>\<open>JSON.parse\<close> makes of them. \<open>dup_file\<close> is
  \<^verbatim>\<open>[{"id":"a","name":"First"},{"id":"a","name":"Second"}]\<close>; \<open>note_file\<close> is the
  pretty-printed array that holds \<open>note_template\<close>. \<open>sample_JSON_parse\<close> is a table
  of the platform function at the documents used in the examples; its value anywhere
  else is never used. The wording of a syntax error is the engine's own; the model only
  passes it on.
\<close>

definition quoted :: "string \<Rightarrow> string" where
  "quoted s = [CHR 0x22] @ s @ [CHR 0x22]"

definition dup_templates :: "template list" where
  "dup_templates =
     [\<lparr>t_id = Some ''a'', t_name = Some ''First'', t_tags = None, t_context = None,
       t_task = None, t_rules = None, t_format = None, t_examples = None\<rparr>,
      \<lparr>t_id = Some ''a'', t_name = Some ''Second'', t_tags = None, t_context = None,
       t_task = None, t_rules = None, t_format = None, t_examples = None\<rparr>]"

definition dup_file :: string where
  "dup_file =
     ''[{'' @ quoted ''id'' @ '':'' @ quoted ''a'' @ '','' @ quoted ''name'' @ '':'' @
     quoted ''First'' @ ''},{'' @ quoted ''id'' @ '':'' @ quoted ''a'' @ '','' @
     quoted ''name'' @ '':'' @ quoted ''Second'' @ ''}]''"

definition note_template :: template where
  "note_template =
     \<lparr>t_id = Some ''n1'', t_name = Some ''Note'', t_tags = Some [],
      t_context = Some ''Be brief.'', t_task = Some [], t_rules = Some [''One line.''],
      t_format = Some [], t_examples = Some []\<rparr>"

definition note_file :: string where
  "note_file = join ''\<newline>''
     [''['',
      ''  {'',
      ''    '' @ quoted ''id'' @ '': '' @ quoted ''n1'' @ '','',
      ''    '' @ quoted ''name'' @ '': '' @ quoted ''Note'' @ '','',
      ''    '' @ quoted ''tags'' @ '': [],'',
      ''    '' @ quoted ''context'' @ '': '' @ quoted ''Be brief.'' @ '','',
      ''    '' @ quoted ''task'' @ '': '' @ quoted [] @ '','',
      ''    '' @ quoted ''rules'' @ '': ['',
      ''      '' @ quoted ''One line.'',
      ''    ],'',
      ''    '' @ quoted ''format'' @ '': '' @ quoted [] @ '','',
      ''    '' @ quoted ''examples'' @ '': []'',
      ''  }'',
      '']'']"

definition sample_JSON_parse :: json_parse where
  "sample_JSON_parse s =
     (if s = dup_file then Inr (JArray dup_templates)
      else if s = note_file then Inr (JArray [note_template])
      else if s = ''[]'' then Inr (JArray [])
      else if s = ''null'' then Inr (JNotArray ''null'')
      else if s = [] then Inl ''Unexpected end of JSON input''
      else if s = ''{'' then Inl ''Unexpected end of JSON input''
      else Inl ''not in the table'')"

section \<open>The library view on unvalidated JSON values\<close>

text \<open>
  An import installs whatever array \<^verbatim>\<open>JSON.parse\<close> returns, so the library view of
  lines 102 to 111 can meet any JSON value where it expects a template. This section
  models those lines on JSON values as they are, with the \<^verbatim>\<open>TypeError\<close> that
  JavaScript throws as a result of its own. A value is a tree as the parser builds it:
  no two positions share an object. A number is held as the text that
  \<^verbatim>\<open>Number.prototype.toString\<close> gives it (\<^verbatim>\<open>5\<close>, \<^verbatim>\<open>1.5\<close>; zero of either sign is
  \<^verbatim>\<open>0\<close>); an object as its own properties in their order.

  \<^item> \<open>get_prop\<close> is \<^verbatim>\<open>t.key\<close>: a TypeError on \<^verbatim>\<open>null\<close>, the own property of an
    object, and \<^verbatim>\<open>undefined\<close> (\<^term>\<open>None\<close>) otherwise; none of the eight keys the
    code reads is inherited from a prototype.
  \<^item> \<open>truthy\<close> and \<open>or_array\<close> are \<^verbatim>\<open>v || []\<close>.
  \<^item> \<open>spread\<close> is \<^verbatim>\<open>...v\<close> in an array literal: the elements of an array, the
    characters of a string, a TypeError for a value that is not iterable.
  \<^item> \<open>js_to_string\<close> is ToString, as \<^verbatim>\<open>join\<close> and \<^verbatim>\<open>sort\<close> apply it: an array is
    its elements joined by commas with \<^verbatim>\<open>null\<close> as the empty string, an object is
    \<^verbatim>\<open>[object Object]\<close> unless an own property \<^verbatim>\<open>toString\<close> hides the inherited
    method, and then the conversion throws.
  \<^item> \<open>call_some\<close> is \<^verbatim>\<open>v.some(f)\<close>: only an array has the method; \<open>tag_includes\<close>
    is the callback of line 108, and only a string has \<^verbatim>\<open>toLowerCase\<close>.
  \<^item> \<open>filter_loop\<close> is \<^verbatim>\<open>templates.filter(f)\<close> with a callback that may throw.
  \<^item> \<open>flatMap_tags\<close>, \<open>set_from_array\<close> and \<open>array_sort\<close> are line 102:
    \<^verbatim>\<open>flatMap\<close> flattens an array result and appends any other result as it is, a
    \<^verbatim>\<open>Set\<close> compares primitives by value and objects by identity, and the default
    \<^verbatim>\<open>sort\<close> compares the ToString of the elements (it compares nothing in an array
    of fewer than two elements) and is stable.
  \<^item> \<open>js_of_template\<close> is the object that a template of the typed model stands for.
\<close>

datatype json =
  JNull | JBool bool | JNum string | JStr string | JArr "json list" | JObj "(string \<times> json) list"

datatype js_error = TypeError

definition bind_err :: "js_error + 'a \<Rightarrow> ('a \<Rightarrow> js_error + 'b) \<Rightarrow> js_error + 'b" where
  "bind_err m f = (case m of Inl e \<Rightarrow> Inl e | Inr x \<Rightarrow> f x)"

fun sequence_err :: "(js_error + 'a) list \<Rightarrow> js_error + 'a list" where
  "sequence_err [] = Inr []"
| "sequence_err (m # ms) =
     bind_err m (\<lambda>x. bind_err (sequence_err ms) (\<lambda>xs. Inr (x # xs)))"

fun get_prop :: "json \<Rightarrow> string \<Rightarrow> js_error + json option" where
  "get_prop JNull key = Inl TypeError"
| "get_prop (JObj members) key = Inr (map_of members key)"
| "get_prop (JBool b) key = Inr None"
| "get_prop (JNum n) key = Inr None"
| "get_prop (JStr s) key = Inr None"
| "get_prop (JArr xs) key = Inr None"

fun truthy :: "json option \<Rightarrow> bool" where
  "truthy None = False"
| "truthy (Some JNull) = False"
| "truthy (Some (JBool b)) = b"
| "truthy (Some (JNum n)) = (n \<noteq> ''0'')"
| "truthy (Some (JStr s)) = (s \<noteq> [])"
| "truthy (Some (JArr xs)) = True"
| "truthy (Some (JObj members)) = True"

definition or_array :: "json option \<Rightarrow> json" where
  "or_array v = (case v of None \<Rightarrow> JArr [] | Some x \<Rightarrow> if truthy v then x else JArr [])"

fun spread :: "json \<Rightarrow> js_error + json option list" where
  "spread (JArr xs) = Inr (map Some xs)"
| "spread (JStr s) = Inr (map (\<lambda>c. Some (JStr [c])) s)"
| "spread JNull = Inl TypeError"
| "spread (JBool b) = Inl TypeError"
| "spread (JNum n) = Inl TypeError"
| "spread (JObj members) = Inl TypeError"

fun js_to_string :: "json \<Rightarrow> js_error + string" where
  "js_to_string JNull = Inr ''null''"
| "js_to_string (JBool b) = Inr (if b then ''true'' else ''false'')"
| "js_to_string (JNum n) = Inr n"
| "js_to_string (JStr s) = Inr s"
| "js_to_string (JArr xs) =
     bind_err (sequence_err (map (\<lambda>x. if x = JNull then Inr [] else js_to_string x) xs))
       (\<lambda>strs. Inr (join '','' strs))"
| "js_to_string (JObj members) =
     (if ''toString'' \<in> fst ` set members then Inl TypeError else Inr ''[object Object]'')"

fun join_item_js :: "json option \<Rightarrow> js_error + string" where
  "join_item_js None = Inr []"
| "join_item_js (Some x) = (if x = JNull then Inr [] else js_to_string x)"

definition searchable_js :: "json \<Rightarrow> js_error + string" where
  "searchable_js t =
     bind_err (get_prop t ''name'') (\<lambda>name.
     bind_err (get_prop t ''context'') (\<lambda>ctx.
     bind_err (get_prop t ''task'') (\<lambda>task.
     bind_err (get_prop t ''format'') (\<lambda>fmt.
     bind_err (get_prop t ''rules'') (\<lambda>rules.
     bind_err (spread (or_array rules)) (\<lambda>rs.
     bind_err (get_prop t ''examples'') (\<lambda>examples.
     bind_err (spread (or_array examples)) (\<lambda>es.
     bind_err (sequence_err (map join_item_js ([name, ctx, task, fmt] @ rs @ es))) (\<lambda>strs.
     Inr (join '' '' strs))))))))))"

fun some_loop :: "(json \<Rightarrow> js_error + bool) \<Rightarrow> json list \<Rightarrow> js_error + bool" where
  "some_loop f [] = Inr False"
| "some_loop f (x # xs) = bind_err (f x) (\<lambda>b. if b then Inr True else some_loop f xs)"

fun call_some :: "json \<Rightarrow> (json \<Rightarrow> js_error + bool) \<Rightarrow> js_error + bool" where
  "call_some (JArr xs) f = some_loop f xs"
| "call_some JNull f = Inl TypeError"
| "call_some (JBool b) f = Inl TypeError"
| "call_some (JNum n) f = Inl TypeError"
| "call_some (JStr s) f = Inl TypeError"
| "call_some (JObj members) f = Inl TypeError"

fun tag_includes :: "string \<Rightarrow> json \<Rightarrow> js_error + bool" where
  "tag_includes tg (JStr s) = Inr (str_includes (toLowerCase s) tg)"
| "tag_includes tg JNull = Inl TypeError"
| "tag_includes tg (JBool b) = Inl TypeError"
| "tag_includes tg (JNum n) = Inl TypeError"
| "tag_includes tg (JArr xs) = Inl TypeError"
| "tag_includes tg (JObj members) = Inl TypeError"

fun filter_loop :: "(json \<Rightarrow> js_error + bool) \<Rightarrow> json list \<Rightarrow> js_error + json list" where
  "filter_loop f [] = Inr []"
| "filter_loop f (x # xs) =
     bind_err (f x) (\<lambda>b. bind_err (filter_loop f xs) (\<lambda>ys. Inr (if b then x # ys else ys)))"

definition filtered_js :: "json list \<Rightarrow> string \<Rightarrow> string \<Rightarrow> js_error + json list" where
  "filtered_js ts srch tagF =
     (let q = trim (toLowerCase (or_string srch []));
          tg = trim (toLowerCase (or_string tagF []))
      in filter_loop (\<lambda>t.
           bind_err (if q = [] then Inr True
                     else bind_err (searchable_js t)
                            (\<lambda>text. Inr (str_includes (toLowerCase text) q))) (\<lambda>inText.
           bind_err (if tg = [] then Inr True
                     else bind_err (get_prop t ''tags'')
                            (\<lambda>tags. call_some (or_array tags) (tag_includes tg))) (\<lambda>inTag.
           Inr (inText \<and> inTag)))) ts)"


fun flat_item :: "json \<Rightarrow> json list" where
  "flat_item (JArr xs) = xs"
| "flat_item JNull = [JNull]"
| "flat_item (JBool b) = [JBool b]"
| "flat_item (JNum n) = [JNum n]"
| "flat_item (JStr s) = [JStr s]"
| "flat_item (JObj members) = [JObj members]"

fun flatMap_tags :: "json list \<Rightarrow> js_error + json list" where
  "flatMap_tags [] = Inr []"
| "flatMap_tags (t # ts) =
     bind_err (get_prop t ''tags'') (\<lambda>tags.
     bind_err (flatMap_tags ts) (\<lambda>rest. Inr (flat_item (or_array tags) @ rest)))"

fun same_value_zero :: "json \<Rightarrow> json \<Rightarrow> bool" where
  "same_value_zero (JArr xs) y = False"
| "same_value_zero (JObj members) y = False"
| "same_value_zero x y = (x = y)"

definition set_from_array :: "json list \<Rightarrow> json list" where
  "set_from_array xs =
     fold (\<lambda>x acc. if list_ex (same_value_zero x) acc then acc else acc @ [x]) xs []"

definition array_sort :: "json list \<Rightarrow> js_error + json list" where
  "array_sort xs =
     (if length xs < 2 then Inr xs
      else bind_err (sequence_err (map js_to_string xs))
             (\<lambda>keys. Inr (map snd (sort_key fst (zip keys xs)))))"

definition allTags_js :: "json list \<Rightarrow> js_error + json list" where
  "allTags_js ts = bind_err (flatMap_tags ts) (\<lambda>tags. array_sort (set_from_array tags))"

definition obj_member :: "string \<Rightarrow> json option \<Rightarrow> (string \<times> json) list" where
  "obj_member key v = (case v of None \<Rightarrow> [] | Some x \<Rightarrow> [(key, x)])"

definition strings_json :: "string list \<Rightarrow> json" where
  "strings_json xs = JArr (map JStr xs)"

definition js_of_template :: "template \<Rightarrow> json" where
  "js_of_template t =
     JObj (obj_member ''id'' (map_option JStr (t_id t)) @
           obj_member ''name'' (map_option JStr (t_name t)) @
           obj_member ''tags'' (map_option strings_json (t_tags t)) @
           obj_member ''context'' (map_option JStr (t_context t)) @
           obj_member ''task'' (map_option JStr (t_task t)) @
           obj_member ''rules'' (map_option strings_json (t_rules t)) @
           obj_member ''format'' (map_option JStr (t_format t)) @
           obj_member ''examples'' (map_option strings_json (t_examples t)))"

section \<open>The platform's JSON text functions\<close>

text \<open>
  \<^verbatim>\<open>JSON.stringify(value, null, 2)\<close> and \<^verbatim>\<open>JSON.parse(text)\<close> as ECMAScript defines them,
  on the JSON values of the section above.

  \<^item> \<open>QuoteJSONString\<close> is the abstract operation of that name: the quotation mark and
    the backslash are escaped, the control characters below U+0020 are written
    \<^verbatim>\<open>\b \t \n \f \r\<close> or \<^verbatim>\<open>\u00xx\<close> in lower-case hexadecimal digits, and every
    other code unit is copied.
  \<^item> \<open>stringify ind v\<close> is SerializeJSONProperty with the gap of two spaces at the
    current indentation \<open>ind\<close>: an empty array is \<^verbatim>\<open>[]\<close>, an empty object \<^verbatim>\<open>{}\<close>, the
    elements of any other stand on lines of their own, indented by two more spaces and
    separated by a comma, and a member is its quoted key, a colon, a space and its value.
  \<^item> \<open>JSON_parse_text\<close> reads a text by the JSON grammar: white space is tab, line
    feed, carriage return and space; a string may hold any code unit from U+0020 on but
    the quotation mark and the backslash, and the escapes
    \<^verbatim>\<open>\" \\ \/ \b \f \n \r \t \uXXXX\<close>; a later member with the key of an earlier one
    replaces its value in place; nothing but white space may follow the value. The
    recursion into arrays and objects is counted down from the length of the text.
  \<^item> The result \<open>Unmodelled\<close> stands for the texts on which this model has no value to
    give: a number other than an integer of at most fifteen digits in its canonical
    form (the value of any other takes floating-point arithmetic), an escape beyond
    U+00FF, an object key made of digits only (the engine lists such keys first, in
    numeric order), and a text that runs the counter down.

  \<open>JSON_stringify_model\<close> and \<open>JSON_parse_model\<close> are the two functions on the typed
  values of this development. An array of templates is printed as the array of the
  objects they stand for, the members in the order of the object literal of line 183,
  which is also the order of the seed templates. A parsed array is an array of templates
  when every element is an object with distinct keys among the eight field names, each
  value of its declared type; an array with any other element has no typed value, and
  the typed parser answers it, like an unmodelled text, with a message of its own.
\<close>

definition hex_digit :: "nat \<Rightarrow> char" where
  "hex_digit d = ''0123456789abcdef'' ! d"

definition backslash :: char where
  "backslash = CHR 0x5C"

definition quote_char :: "char \<Rightarrow> string" where
  "quote_char c =
     (let n = (of_char c :: nat)
      in if n = 8 then [backslash, CHR ''b'']
         else if n = 9 then [backslash, CHR ''t'']
         else if n = 10 then [backslash, CHR ''n'']
         else if n = 12 then [backslash, CHR ''f'']
         else if n = 13 then [backslash, CHR ''r'']
         else if n = 34 then [backslash, CHR 0x22]
         else if n = 92 then [backslash, backslash]
         else if n < 32 then
           [backslash, CHR ''u'', CHR ''0'', CHR ''0'', hex_digit (n div 16), hex_digit (n mod 16)]
         else [c])"

definition QuoteJSONString :: "string \<Rightarrow> string" where
  "QuoteJSONString s = [CHR 0x22] @ concat (map quote_char s) @ [CHR 0x22]"

fun stringify :: "string \<Rightarrow> json \<Rightarrow> string" where
  "stringify ind JNull = ''null''"
| "stringify ind (JBool b) = (if b then ''true'' else ''false'')"
| "stringify ind (JNum n) = n"
| "stringify ind (JStr s) = QuoteJSONString s"
| "stringify ind (JArr xs) =
     (if xs = [] then ''[]''
      else ''['' @ [CHR 0x0A] @ (ind @ ''  '') @
           join ('','' @ [CHR 0x0A] @ (ind @ ''  '')) (map (stringify (ind @ ''  '')) xs) @
           [CHR 0x0A] @ ind @ '']'')"
| "stringify ind (JObj ms) =
     (if ms = [] then ''{}''
      else ''{'' @ [CHR 0x0A] @ (ind @ ''  '') @
           join ('','' @ [CHR 0x0A] @ (ind @ ''  ''))
             (map (\<lambda>m. QuoteJSONString (fst m) @ '': '' @ stringify (ind @ ''  '') (snd m)) ms) @
           [CHR 0x0A] @ ind @ ''}'')"

datatype 'a reading = Read 'a | Syntax_Error | Unmodelled

definition bind_read :: "'a reading \<Rightarrow> ('a \<Rightarrow> 'b reading) \<Rightarrow> 'b reading" where
  "bind_read m f = (case m of Read x \<Rightarrow> f x | Syntax_Error \<Rightarrow> Syntax_Error | Unmodelled \<Rightarrow> Unmodelled)"

definition is_json_ws :: "char \<Rightarrow> bool" where
  "is_json_ws c = ((of_char c :: nat) \<in> {9, 10, 13, 32})"

definition skip_ws :: "string \<Rightarrow> string" where
  "skip_ws s = dropWhile is_json_ws s"

definition hex_value :: "char \<Rightarrow> nat option" where
  "hex_value c =
     (let n = (of_char c :: nat)
      in if 48 \<le> n \<and> n \<le> 57 then Some (n - 48)
         else if 97 \<le> n \<and> n \<le> 102 then Some (n - 87)
         else if 65 \<le> n \<and> n \<le> 70 then Some (n - 55)
         else None)"

definition simple_escape :: "char \<Rightarrow> char option" where
  "simple_escape e =
     (if e = CHR 0x22 then Some (CHR 0x22)
      else if e = backslash then Some backslash
      else if e = CHR ''/'' then Some (CHR ''/'')
      else if e = CHR ''b'' then Some (CHR 0x08)
      else if e = CHR ''f'' then Some (CHR 0x0C)
      else if e = CHR ''n'' then Some (CHR 0x0A)
      else if e = CHR ''r'' then Some (CHR 0x0D)
      else if e = CHR ''t'' then Some (CHR 0x09)
      else None)"

definition unicode_escape :: "char \<Rightarrow> char \<Rightarrow> char \<Rightarrow> char \<Rightarrow> char reading" where
  "unicode_escape h1 h2 h3 h4 =
     (case (hex_value h1, hex_value h2, hex_value h3, hex_value h4) of
        (Some a, Some b, Some c, Some d) \<Rightarrow>
          (if a = 0 \<and> b = 0 then Read (char_of (16 * c + d)) else Unmodelled)
      | _ \<Rightarrow> Syntax_Error)"

definition cons_read :: "char reading \<Rightarrow> (string \<times> string) reading \<Rightarrow> (string \<times> string) reading" where
  "cons_read c m = bind_read c (\<lambda>ch. bind_read m (\<lambda>(s, rest). Read (ch # s, rest)))"

fun read_string :: "string \<Rightarrow> (string \<times> string) reading" where
  "read_string [] = Syntax_Error"
| "read_string (c # r) =
     (if c = CHR 0x22 then Read ([], r)
      else if c = backslash then
        (case r of
           [] \<Rightarrow> Syntax_Error
         | e # r1 \<Rightarrow>
             if e = CHR ''u'' then
               (case r1 of
                  h1 # h2 # h3 # h4 # r2 \<Rightarrow> cons_read (unicode_escape h1 h2 h3 h4) (read_string r2)
                | _ \<Rightarrow> Syntax_Error)
             else
               (case simple_escape e of
                  None \<Rightarrow> Syntax_Error
                | Some ch \<Rightarrow> cons_read (Read ch) (read_string r1)))
      else if (of_char c :: nat) < 32 then Syntax_Error
      else cons_read (Read c) (read_string r))"

definition is_digit :: "char \<Rightarrow> bool" where
  "is_digit c = (48 \<le> (of_char c :: nat) \<and> (of_char c :: nat) \<le> 57)"

definition is_number_char :: "char \<Rightarrow> bool" where
  "is_number_char c = (is_digit c \<or> c \<in> set ''+-.eE'')"

definition canonical_integer :: "string \<Rightarrow> bool" where
  "canonical_integer tok =
     (tok = ''0'' \<or>
      (let ds = (if tok \<noteq> [] \<and> hd tok = CHR ''-'' then tl tok else tok)
       in ds \<noteq> [] \<and> list_all is_digit ds \<and> hd ds \<noteq> CHR ''0'' \<and> length ds \<le> 15))"

definition read_number :: "string \<Rightarrow> (json \<times> string) reading" where
  "read_number s =
     (let tok = takeWhile is_number_char s
      in if canonical_integer tok then Read (JNum tok, dropWhile is_number_char s) else Unmodelled)"

definition read_literal :: "string \<Rightarrow> (json \<times> string) reading" where
  "read_literal s =
     (if prefix ''true'' s then Read (JBool True, drop 4 s)
      else if prefix ''false'' s then Read (JBool False, drop 5 s)
      else if prefix ''null'' s then Read (JNull, drop 4 s)
      else Syntax_Error)"

definition digits_only :: "string \<Rightarrow> bool" where
  "digits_only key = (key \<noteq> [] \<and> list_all is_digit key)"

definition put_member :: "string \<times> json \<Rightarrow> (string \<times> json) list \<Rightarrow> (string \<times> json) list" where
  "put_member m ms =
     (if fst m \<in> fst ` set ms then map (\<lambda>m'. if fst m' = fst m then m else m') ms else ms @ [m])"

definition object_of_members :: "(string \<times> json) list \<Rightarrow> json reading" where
  "object_of_members raw =
     (if list_ex (\<lambda>m. digits_only (fst m)) raw then Unmodelled else Read (JObj (fold put_member raw [])))"

fun read_value :: "nat \<Rightarrow> string \<Rightarrow> (json \<times> string) reading"
  and read_items :: "nat \<Rightarrow> string \<Rightarrow> (json list \<times> string) reading"
  and read_members :: "nat \<Rightarrow> string \<Rightarrow> ((string \<times> json) list \<times> string) reading" where
  "read_value 0 s = Unmodelled"
| "read_value (Suc n) s =
     (case skip_ws s of
        [] \<Rightarrow> Syntax_Error
      | c # r \<Rightarrow>
          if c = CHR 0x22 then bind_read (read_string r) (\<lambda>(str, r'). Read (JStr str, r'))
          else if c = CHR ''['' then
            (case skip_ws r of
               [] \<Rightarrow> Syntax_Error
             | d # r' \<Rightarrow>
                 if d = CHR '']'' then Read (JArr [], r')
                 else bind_read (read_items n r) (\<lambda>(xs, r''). Read (JArr xs, r'')))
          else if c = CHR ''{'' then
            (case skip_ws r of
               [] \<Rightarrow> Syntax_Error
             | d # r' \<Rightarrow>
                 if d = CHR ''}'' then Read (JObj [], r')
                 else bind_read (read_members n r)
                        (\<lambda>(raw, r''). bind_read (object_of_members raw) (\<lambda>obj. Read (obj, r''))))
          else if c = CHR ''-'' \<or> is_digit c then read_number (c # r)
          else read_literal (c # r))"
| "read_items 0 s = Unmodelled"
| "read_items (Suc n) s =
     bind_read (read_value n s) (\<lambda>(x, r).
       case skip_ws r of
         [] \<Rightarrow> Syntax_Error
       | d # r' \<Rightarrow>
           if d = CHR '','' then bind_read (read_items n r') (\<lambda>(xs, r''). Read (x # xs, r''))
           else if d = CHR '']'' then Read ([x], r')
           else Syntax_Error)"
| "read_members 0 s = Unmodelled"
| "read_members (Suc n) s =
     (case skip_ws s of
        [] \<Rightarrow> Syntax_Error
      | c # r \<Rightarrow>
          if c \<noteq> CHR 0x22 then Syntax_Error
          else bind_read (read_string r) (\<lambda>(key, r1).
            case skip_ws r1 of
              [] \<Rightarrow> Syntax_Error
            | d # r2 \<Rightarrow>
                if d \<noteq> CHR '':'' then Syntax_Error
                else bind_read (read_value n r2) (\<lambda>(v, r3).
                  case skip_ws r3 of
                    [] \<Rightarrow> Syntax_Error
                  | e # r4 \<Rightarrow>
                      if e = CHR '','' then
                        bind_read (read_members n r4) (\<lambda>(ms, r5). Read ((key, v) # ms, r5))
                      else if e = CHR ''}'' then Read ([(key, v)], r4)
                      else Syntax_Error)))"

definition JSON_parse_text :: "string \<Rightarrow> json reading" where
  "JSON_parse_text s =
     bind_read (read_value (Suc (length s)) s)
       (\<lambda>(v, rest). if skip_ws rest = [] then Read v else Syntax_Error)"

fun plain :: "json \<Rightarrow> bool" where
  "plain JNull = True"
| "plain (JBool b) = True"
| "plain (JNum n) = False"
| "plain (JStr s) = True"
| "plain (JArr xs) = list_all plain xs"
| "plain (JObj ms) =
     (distinct (map fst ms) \<and> \<not> list_ex (\<lambda>m. digits_only (fst m)) ms \<and>
      list_all (\<lambda>m. plain (snd m)) ms)"

definition member_text :: "string \<Rightarrow> string \<times> json \<Rightarrow> string" where
  "member_text ind2 m = QuoteJSONString (fst m) @ '': '' @ stringify ind2 (snd m)"

fun as_string :: "json \<Rightarrow> string option" where
  "as_string (JStr s) = Some s"
| "as_string JNull = None"
| "as_string (JBool b) = None"
| "as_string (JNum n) = None"
| "as_string (JArr xs) = None"
| "as_string (JObj ms) = None"

fun as_strings :: "json \<Rightarrow> string list option" where
  "as_strings (JArr xs) = those (map as_string xs)"
| "as_strings JNull = None"
| "as_strings (JBool b) = None"
| "as_strings (JNum n) = None"
| "as_strings (JStr s) = None"
| "as_strings (JObj ms) = None"

definition string_keys :: "string list" where
  "string_keys = [''id'', ''name'', ''context'', ''task'', ''format'']"

definition list_keys :: "string list" where
  "list_keys = [''tags'', ''rules'', ''examples'']"

definition wellshaped_member :: "string \<times> json \<Rightarrow> bool" where
  "wellshaped_member m =
     ((fst m \<in> set string_keys \<and> as_string (snd m) \<noteq> None) \<or>
      (fst m \<in> set list_keys \<and> as_strings (snd m) \<noteq> None))"

definition string_field :: "(string \<times> json) list \<Rightarrow> string \<Rightarrow> string option" where
  "string_field ms key = (case map_of ms key of None \<Rightarrow> None | Some v \<Rightarrow> as_string v)"

definition list_field :: "(string \<times> json) list \<Rightarrow> string \<Rightarrow> string list option" where
  "list_field ms key = (case map_of ms key of None \<Rightarrow> None | Some v \<Rightarrow> as_strings v)"

fun template_of_js :: "json \<Rightarrow> template option" where
  "template_of_js (JObj ms) =
     (if distinct (map fst ms) \<and> list_all wellshaped_member ms
      then Some \<lparr>t_id = string_field ms ''id'', t_name = string_field ms ''name'',
                 t_tags = list_field ms ''tags'', t_context = string_field ms ''context'',
                 t_task = string_field ms ''task'', t_rules = list_field ms ''rules'',
                 t_format = string_field ms ''format'',
                 t_examples = list_field ms ''examples''\<rparr>
      else None)"
| "template_of_js JNull = None"
| "template_of_js (JBool b) = None"
| "template_of_js (JNum n) = None"
| "template_of_js (JStr s) = None"
| "template_of_js (JArr xs) = None"

definition JSON_stringify_model :: json_stringify where
  "JSON_stringify_model v =
     (case v of
        JArray ts \<Rightarrow> stringify [] (JArr (map js_of_template ts))
      | JNotArray text \<Rightarrow> text)"

definition JSON_parse_model :: json_parse where
  "JSON_parse_model s =
     (case JSON_parse_text s of
        Syntax_Error \<Rightarrow> Inl ''SyntaxError''
      | Unmodelled \<Rightarrow> Inl ''(outside the model)''
      | Read v \<Rightarrow>
          (case v of
             JArr xs \<Rightarrow>
               (case those (map template_of_js xs) of
                  Some ts \<Rightarrow> Inr (JArray ts)
                | None \<Rightarrow> Inl ''(outside the model)'')
           | _ \<Rightarrow> Inr (JNotArray (stringify [] v))))"

definition template_members :: "template \<Rightarrow> (string \<times> json option) list" where
  "template_members t =
     [(''id'', map_option JStr (t_id t)), (''name'', map_option JStr (t_name t)),
      (''tags'', map_option strings_json (t_tags t)),
      (''context'', map_option JStr (t_context t)), (''task'', map_option JStr (t_task t)),
      (''rules'', map_option strings_json (t_rules t)),
      (''format'', map_option JStr (t_format t)),
      (''examples'', map_option strings_json (t_examples t))]"

text \<open>
  A JSON value read as a template. \<open>field_typed\<close> holds of an object in which each of the
  seven fields that lines 102 to 111 read is absent or of its declared type: a string for
  \<^verbatim>\<open>name, context, task, format\<close>, an array of strings for \<^verbatim>\<open>tags, rules, examples\<close>.
  Its other members, the order of its members and the type of its \<^verbatim>\<open>id\<close> are free.
  \<open>typed_view\<close> is the template that a value stands for: each field that has its
  declared type, and every other field absent.
\<close>

definition text_keys :: "string list" where
  "text_keys = [''name'', ''context'', ''task'', ''format'']"

fun field_typed :: "json \<Rightarrow> bool" where
  "field_typed (JObj ms) =
     (list_all (\<lambda>key. case map_of ms key of None \<Rightarrow> True | Some v \<Rightarrow> as_string v \<noteq> None)
        text_keys \<and>
      list_all (\<lambda>key. case map_of ms key of None \<Rightarrow> True | Some v \<Rightarrow> as_strings v \<noteq> None)
        list_keys)"
| "field_typed JNull = False"
| "field_typed (JBool b) = False"
| "field_typed (JNum n) = False"
| "field_typed (JStr s) = False"
| "field_typed (JArr xs) = False"

definition typed_members :: "(string \<times> json) list \<Rightarrow> template" where
  "typed_members ms =
     \<lparr>t_id = string_field ms ''id'', t_name = string_field ms ''name'',
      t_tags = list_field ms ''tags'', t_context = string_field ms ''context'',
      t_task = string_field ms ''task'', t_rules = list_field ms ''rules'',
      t_format = string_field ms ''format'', t_examples = list_field ms ''examples''\<rparr>"

fun typed_view :: "json \<Rightarrow> template" where
  "typed_view (JObj ms) = typed_members ms"
| "typed_view JNull = typed_members []"
| "typed_view (JBool b) = typed_members []"
| "typed_view (JNum n) = typed_members []"
| "typed_view (JStr s) = typed_members []"
| "typed_view (JArr xs) = typed_members []"

definition extra_object :: json where
  \<comment> \<open>\<^verbatim>\<open>{"notes":5,"name":"Bare Note","id":7}\<close>\<close>
  "extra_object = JObj [(''notes'', JNum ''5''), (''name'', JStr ''Bare Note''), (''id'', JNum ''7'')]"

definition rules5_object :: json where
  \<comment> \<open>\<^verbatim>\<open>{"id":"r5","name":"Note","rules":5}\<close>\<close>
  "rules5_object = JObj [(''id'', JStr ''r5''), (''name'', JStr ''Note''), (''rules'', JNum ''5'')]"

definition tags5_object :: json where
  \<comment> \<open>\<^verbatim>\<open>{"id":"t5","name":"Note","tags":5}\<close>\<close>
  "tags5_object = JObj [(''id'', JStr ''t5''), (''name'', JStr ''Note''), (''tags'', JNum ''5'')]"

section \<open>The prompt assembler: proofs\<close>

lemma fold_push: "fold (\<lambda>r ls. push ls (p @ r)) rs ls = ls @ map (\<lambda>r. p @ r) rs"
  by (induction rs arbitrary: ls) (simp_all add: push_def)

lemma assembled_lines: "assembled st = trim (join ''\<newline>'' (spec_lines st))"
  unfolding assembled_def Let_def fold_push
  by (simp add: spec_lines_def string_section_def list_section_def push_def del: join.simps)

lemma trim_no_leading: "s = [] \<or> \<not> isWhiteSpace (hd s) \<Longrightarrow> trim s = trimEnd s"
  by (cases s) (auto simp: trim_def trimStart_def)

lemma hd_join: "x \<noteq> [] \<Longrightarrow> hd (join sep (x # xs)) = hd x"
  by (cases xs) auto

lemma spec_lines_hd: "spec_lines st = [] \<or> hd (spec_lines st) \<in> set headers"
  by (simp add: spec_lines_def string_section_def list_section_def headers_def)

lemma header_start: "h \<in> set headers \<Longrightarrow> h \<noteq> [] \<and> \<not> isWhiteSpace (hd h)"
  by (auto simp: headers_def isWhiteSpace_def)

lemma join_spec_lines:
  "join sep (spec_lines st) = [] \<or> \<not> isWhiteSpace (hd (join sep (spec_lines st)))"
proof (cases "spec_lines st")
  case Nil
  then show ?thesis by simp
next
  case (Cons h rest)
  with spec_lines_hd [of st] have "h \<in> set headers" by simp
  then have "h \<noteq> []" and "\<not> isWhiteSpace (hd h)" using header_start by blast+
  then show ?thesis using Cons by (simp add: hd_join)
qed

text \<open>
  C1 (as amended). The assembled prompt is the specification's text: the five sections
  in the order Context, Task, Rules, Format, Examples, a section being left out exactly
  when its field is the empty string or the empty sequence, a string section being its
  header, the trimmed field and an empty line, a list section its header, one line
  \<^verbatim>\<open>- item\<close> per item and an empty line, and the joined text trimmed at its end (the
  code trims both ends; the text starts with a header, so nothing is lost in front).
  A field of white space only is not empty: it keeps its header.
\<close>

theorem assembled_sections: "assembled st = spec_assemble st"
  unfolding assembled_lines spec_assemble_def
  by (rule trim_no_leading) (rule join_spec_lines)

text \<open>
  The claim as written fails for a context of one space: the field trims to the empty
  string, and the prompt still holds the header \<^verbatim>\<open>Context:\<close>.
\<close>

theorem assembled_whitespace_counterexample:
  "trim '' '' = [] \<and> assembled (initial_app\<lparr>d_context := '' ''\<rparr>) = ''Context:''"
  by (simp add: assembled_def initial_app_def trim_def trimStart_def trimEnd_def
      isWhiteSpace_def push_def)

text \<open>
  C9. A draft whose context, task and format are empty strings and whose rules and
  examples are empty sequences assembles to the empty string.
\<close>

theorem assembled_empty:
  assumes "d_context st = []" and "d_task st = []" and "d_rules st = []"
    and "d_format st = []" and "d_examples st = []"
  shows "assembled st = []"
  using assms by (simp add: assembled_def trim_def trimStart_def trimEnd_def)

theorem assembled_empty_witness:
  "d_context initial_app = [] \<and> d_task initial_app = [] \<and> d_rules initial_app = [] \<and>
   d_format initial_app = [] \<and> d_examples initial_app = [] \<and> assembled initial_app = []"
proof -
  have e: "d_context initial_app = []" "d_task initial_app = []" "d_rules initial_app = []"
    "d_format initial_app = []" "d_examples initial_app = []"
    by (simp_all add: initial_app_def)
  from assembled_empty [OF e] e show ?thesis by simp
qed

section \<open>The template filter: proofs\<close>

lemma str_includes_sublist: "str_includes s q \<longleftrightarrow> sublist q s"
  by (induction s) (simp_all add: sublist_Cons_right)

lemma dropWhile_all: "(\<forall>x\<in>set (dropWhile P xs). P x) \<longleftrightarrow> (\<forall>x\<in>set xs. P x)"
proof
  assume a: "\<forall>x\<in>set (dropWhile P xs). P x"
  have "dropWhile P xs = []"
  proof (rule ccontr)
    assume "dropWhile P xs \<noteq> []"
    then have "\<not> P (hd (dropWhile P xs))" and "hd (dropWhile P xs) \<in> set (dropWhile P xs)"
      by (simp_all add: hd_dropWhile)
    with a show False by blast
  qed
  then show "\<forall>x\<in>set xs. P x" by (simp add: dropWhile_eq_Nil_conv)
next
  assume "\<forall>x\<in>set xs. P x"
  then show "\<forall>x\<in>set (dropWhile P xs). P x" by (meson set_dropWhileD)
qed

lemma trim_Nil_iff: "trim s = [] \<longleftrightarrow> whitespace_only s"
  by (simp add: trim_def trimEnd_def trimStart_def whitespace_only_def dropWhile_eq_Nil_conv
      dropWhile_all list_all_iff)

lemma isWhiteSpace_toLowerChar: "isWhiteSpace (toLowerChar c) = isWhiteSpace c"
  by (auto simp: isWhiteSpace_def toLowerChar_def Let_def)

lemma whitespace_only_toLowerCase: "whitespace_only (toLowerCase s) = whitespace_only s"
  by (simp add: whitespace_only_def toLowerCase_def list_all_iff isWhiteSpace_toLowerChar)

lemma query_Nil_iff: "trim (toLowerCase q) = [] \<longleftrightarrow> whitespace_only q"
  by (simp add: trim_Nil_iff whitespace_only_toLowerCase)

lemma filtered_filter:
  "filtered ts textQuery tagQuery =
     filter (\<lambda>t. spec_passes_text t textQuery \<and> spec_passes_tag t tagQuery) ts"
  by (simp add: filtered_def Let_def or_string_def query_Nil_iff str_includes_sublist
      list_ex_iff spec_passes_text_def spec_passes_tag_def spec_query_def)

lemma filtered_blank: "filtered ts [] [] = ts"
  by (simp add: filtered_filter spec_passes_text_def spec_passes_tag_def whitespace_only_def)

text \<open>
  C2 (as amended). The library view is the collection, in its order, restricted to the
  templates that pass both filters. A template passes the text filter when the text
  query is empty or white space only, or when the query, in lower case and with the
  white space at its two ends removed, occurs in the lower-case text made of name,
  context, task, format, the rules and the examples joined by single spaces. It passes
  the tag filter when the tag query is empty or white space only, or when the query, in
  lower case and trimmed, occurs in the lower case of one of its tags. Two empty queries
  give the collection back unchanged.
\<close>

theorem filtered_spec:
  "filtered ts textQuery tagQuery =
     filter (\<lambda>t. spec_passes_text t textQuery \<and> spec_passes_tag t tagQuery) ts \<and>
   (t \<in> set (filtered ts textQuery tagQuery) \<longleftrightarrow>
      t \<in> set ts \<and> spec_passes_text t textQuery \<and> spec_passes_tag t tagQuery) \<and>
   filtered ts [] [] = ts"
  using filtered_filter [of ts textQuery tagQuery] filtered_blank [of ts] by simp

theorem filtered_spec_witness:
  "filtered DEFAULT_TEMPLATES ''code'' [] = [code_review] \<and>
   code_review \<in> set DEFAULT_TEMPLATES \<and> spec_passes_text code_review ''code'' \<and>
   spec_passes_tag code_review []"
proof -
  have e: "filtered DEFAULT_TEMPLATES ''code'' [] = [code_review]"
    by code_simp
  from filtered_spec [of DEFAULT_TEMPLATES "''code''" "[]" code_review] e
  show ?thesis by simp
qed

text \<open>
  The claim as written compares with the query as typed. The code trims it first: the
  query \<^verbatim>\<open>" code"\<close> does not occur in the text \<^verbatim>\<open>"code   "\<close> of the template named
  \<^verbatim>\<open>code\<close>, and the query \<^verbatim>\<open>"coding "\<close> occurs in none of its tags, yet the
  template is listed in both cases. The fields are joined by single spaces before the
  search: the query \<^verbatim>\<open>"a b"\<close> finds the template with name \<^verbatim>\<open>a\<close> and context
  \<^verbatim>\<open>b\<close>, though it does not occur in the fields written one after the other.
\<close>

theorem filtered_untrimmed_counterexample:
  "filtered [coding_template] '' code'' [] = [coding_template] \<and>
   \<not> whitespace_only '' code'' \<and>
   \<not> sublist (toLowerCase '' code'') (toLowerCase (searchable coding_template)) \<and>
   filtered [coding_template] [] ''coding '' = [coding_template] \<and>
   \<not> whitespace_only ''coding '' \<and>
   \<not> (\<exists>x \<in> set (or_empty (t_tags coding_template)).
        sublist (toLowerCase ''coding '') (toLowerCase x)) \<and>
   filtered [ab_template] ''a b'' [] = [ab_template] \<and>
   \<not> sublist (toLowerCase ''a b'')
       (toLowerCase (concat ([join_item (t_name ab_template), join_item (t_context ab_template),
          join_item (t_task ab_template), join_item (t_format ab_template)] @
          or_empty (t_rules ab_template) @ or_empty (t_examples ab_template))))"
  by code_simp

section \<open>The editor: proofs\<close>




lemma active_id_editing: "active_id editing_app = Some ''code-review''"
  by (simp add: active_id_def editing_app_def applyTemplate_def code_review_def
      DEFAULT_TEMPLATES_def)

lemma templates_editing: "templates editing_app = DEFAULT_TEMPLATES"
  by (simp add: editing_app_def applyTemplate_def initial_app_def)

lemma seed_ids:
  "map t_id DEFAULT_TEMPLATES = [Some ''research-brief'', Some ''code-review'', Some ''brainstorm'']"
  by (simp add: DEFAULT_TEMPLATES_def)


text \<open>
  C5. Deleting first asks for confirmation. When the user declines, the state is
  unchanged. When the user confirms, the collection loses exactly the templates with the
  id of the deleted one, the others keeping their order; when that id is the id the
  draft is linked to, the draft is reset: no linked template, and an empty name, tags,
  context, task, rules, format and examples. Otherwise the draft is untouched.
\<close>

theorem deleteTemplate_spec:
  assumes "st' = deleteTemplate confirm t st"
  shows "(\<not> confirm (delete_prompt t) \<longrightarrow> st' = st) \<and>
         (confirm (delete_prompt t) \<longrightarrow>
            templates st' = filter (\<lambda>x. t_id x \<noteq> t_id t) (templates st) \<and>
            (\<forall>x \<in> set (templates st'). t_id x \<noteq> t_id t) \<and>
            (active_id st = t_id t \<longrightarrow>
               active st' = None \<and> d_name st' = [] \<and> d_tags st' = [] \<and> d_context st' = [] \<and>
               d_task st' = [] \<and> d_rules st' = [] \<and> d_format st' = [] \<and> d_examples st' = []) \<and>
            (active_id st \<noteq> t_id t \<longrightarrow> st' = st\<lparr>templates := templates st'\<rparr>))"
  using assms by (simp add: deleteTemplate_def resetEditor_def Let_def)

theorem deleteTemplate_spec_witness:
  "deleteTemplate (\<lambda>_. False) code_review editing_app = editing_app \<and>
   delete_prompt code_review = ''Delete template '' @ quoted ''Code Review Helper'' @ ''?'' \<and>
   templates (deleteTemplate (\<lambda>_. True) code_review editing_app) =
     [DEFAULT_TEMPLATES ! 0, DEFAULT_TEMPLATES ! 2] \<and>
   active (deleteTemplate (\<lambda>_. True) code_review editing_app) = None \<and>
   d_task (deleteTemplate (\<lambda>_. True) code_review editing_app) = [] \<and>
   d_task editing_app = ''Review the diff.''"
proof -
  note no = deleteTemplate_spec [OF refl, where confirm = "\<lambda>_. False" and t = code_review and st = editing_app]
  note yes = deleteTemplate_spec [OF refl, where confirm = "\<lambda>_. True" and t = code_review and st = editing_app]
  have a: "active_id editing_app = t_id code_review"
    by (simp add: active_id_editing code_review_def DEFAULT_TEMPLATES_def)
  have f: "filter (\<lambda>x. t_id x \<noteq> t_id code_review) (templates editing_app) =
      [DEFAULT_TEMPLATES ! 0, DEFAULT_TEMPLATES ! 2]"
    by (simp add: templates_editing code_review_def DEFAULT_TEMPLATES_def)
  have p: "delete_prompt code_review = ''Delete template '' @ quoted ''Code Review Helper'' @ ''?''"
    by (simp add: delete_prompt_def code_review_def DEFAULT_TEMPLATES_def quoted_def)
  have d: "d_task editing_app = ''Review the diff.''"
    by (simp add: editing_app_def)
  from no yes a f p d show ?thesis by simp
qed

section \<open>Import, export and the persisted collection: proofs\<close>

lemma import_templates:
  "templates (importTemplates JSON_parse result st) =
     (case JSON_parse result of Inr (JArray ts) \<Rightarrow> ts | _ \<Rightarrow> templates st)"
  by (simp add: importTemplates_def import_try_def alert_def split: sum.splits jsvalue.splits)

lemma sample_parse_values:
  "sample_JSON_parse [] = Inl ''Unexpected end of JSON input''"
  "sample_JSON_parse ''{'' = Inl ''Unexpected end of JSON input''"
  "sample_JSON_parse ''null'' = Inr (JNotArray ''null'')"
  "sample_JSON_parse ''[]'' = Inr (JArray [])"
  "sample_JSON_parse dup_file = Inr (JArray dup_templates)"
  "sample_JSON_parse note_file = Inr (JArray [note_template])"
  by (simp_all add: sample_JSON_parse_def dup_file_def note_file_def quoted_def)

text \<open>
  C4. An import fails, that is, shows a message, exactly when the text does not parse or
  the parsed value is not an array. The message is \<^verbatim>\<open>Import failed: \<close> followed by
  the parser's message, or by \<^verbatim>\<open>Invalid file\<close> for a value that is not an array, and
  nothing else of the state changes, the collection included. When the text parses to an
  array, the collection becomes that array and no message is shown.
\<close>

theorem importTemplates_spec:
  assumes "st' = importTemplates JSON_parse result st"
  shows "(\<forall>msg. JSON_parse result = Inl msg \<longrightarrow>
            st' = st\<lparr>alerts := alerts st @ [''Import failed: '' @ msg]\<rparr>) \<and>
         (\<forall>v. JSON_parse result = Inr (JNotArray v) \<longrightarrow>
            st' = st\<lparr>alerts := alerts st @ [''Import failed: Invalid file'']\<rparr>) \<and>
         (\<forall>ts. JSON_parse result = Inr (JArray ts) \<longrightarrow> st' = st\<lparr>templates := ts\<rparr>) \<and>
         (alerts st' \<noteq> alerts st \<longleftrightarrow>
            isl (JSON_parse result) \<or> (\<exists>v. JSON_parse result = Inr (JNotArray v))) \<and>
         (alerts st' \<noteq> alerts st \<longrightarrow> templates st' = templates st)"
  using assms
  by (auto simp: importTemplates_def import_try_def alert_def split: sum.splits jsvalue.splits)

theorem importTemplates_spec_witness:
  "importTemplates sample_JSON_parse ''{'' initial_app =
     initial_app\<lparr>alerts := [''Import failed: Unexpected end of JSON input'']\<rparr> \<and>
   importTemplates sample_JSON_parse ''null'' initial_app =
     initial_app\<lparr>alerts := [''Import failed: Invalid file'']\<rparr> \<and>
   importTemplates sample_JSON_parse note_file initial_app =
     initial_app\<lparr>templates := [note_template]\<rparr>"
proof -
  note bad = importTemplates_spec [OF refl, where JSON_parse = sample_JSON_parse
      and result = "''{''" and st = initial_app]
  note nul = importTemplates_spec [OF refl, where JSON_parse = sample_JSON_parse
      and result = "''null''" and st = initial_app]
  note arr = importTemplates_spec [OF refl, where JSON_parse = sample_JSON_parse
      and result = note_file and st = initial_app]
  have a: "alerts initial_app = []" by (simp add: initial_app_def)
  from bad nul arr a show ?thesis by (simp add: sample_parse_values)
qed

text \<open>
  C6. Provided the parser rejects the empty text, as \<^verbatim>\<open>JSON.parse\<close> does: when a value
  is stored under the key and parses, the initial collection is the parsed value; when
  no value is stored, or the stored value does not parse, it is the list of the three
  seed templates \<^verbatim>\<open>research-brief\<close>, \<^verbatim>\<open>code-review\<close>, \<^verbatim>\<open>brainstorm\<close>. The
  result is a value in every case: the parser's error stays inside.
\<close>

theorem useLocalStorageTemplates_spec:
  assumes "isl (JSON_parse [])"
  shows "(\<forall>raw v. localStorage STORAGE_KEYS_TEMPLATES = Some raw \<and> JSON_parse raw = Inr v \<longrightarrow>
            useLocalStorageTemplates JSON_parse localStorage = v) \<and>
         (localStorage STORAGE_KEYS_TEMPLATES = None \<or>
          (\<exists>raw msg. localStorage STORAGE_KEYS_TEMPLATES = Some raw \<and> JSON_parse raw = Inl msg) \<longrightarrow>
            useLocalStorageTemplates JSON_parse localStorage = JArray DEFAULT_TEMPLATES) \<and>
         map t_id DEFAULT_TEMPLATES =
           [Some ''research-brief'', Some ''code-review'', Some ''brainstorm'']"
  using assms
  by (auto simp: useLocalStorageTemplates_def load_try_def seed_ids
      split: sum.splits option.splits)

theorem useLocalStorageTemplates_spec_witness:
  "isl (sample_JSON_parse []) \<and>
   useLocalStorageTemplates sample_JSON_parse [STORAGE_KEYS_TEMPLATES \<mapsto> note_file] =
     JArray [note_template] \<and>
   useLocalStorageTemplates sample_JSON_parse Map.empty = JArray DEFAULT_TEMPLATES \<and>
   useLocalStorageTemplates sample_JSON_parse [STORAGE_KEYS_TEMPLATES \<mapsto> ''{''] =
     JArray DEFAULT_TEMPLATES"
proof -
  have h: "isl (sample_JSON_parse [])" by (simp add: sample_parse_values)
  note stored = useLocalStorageTemplates_spec [where JSON_parse = sample_JSON_parse
      and localStorage = "[STORAGE_KEYS_TEMPLATES \<mapsto> note_file]", OF h]
  note missing = useLocalStorageTemplates_spec [where JSON_parse = sample_JSON_parse
      and localStorage = Map.empty, OF h]
  note corrupt = useLocalStorageTemplates_spec [where JSON_parse = sample_JSON_parse
      and localStorage = "[STORAGE_KEYS_TEMPLATES \<mapsto> ''{'']", OF h]
  from stored have 1: "useLocalStorageTemplates sample_JSON_parse
      [STORAGE_KEYS_TEMPLATES \<mapsto> note_file] = JArray [note_template]"
    by (simp add: sample_parse_values)
  from missing have 2: "useLocalStorageTemplates sample_JSON_parse Map.empty =
      JArray DEFAULT_TEMPLATES"
    by simp
  from corrupt have 3: "useLocalStorageTemplates sample_JSON_parse
      [STORAGE_KEYS_TEMPLATES \<mapsto> ''{''] = JArray DEFAULT_TEMPLATES"
    by (simp add: sample_parse_values)
  from h 1 2 3 show ?thesis by blast
qed

lemma save_distinct:
  assumes "distinct (map t_id (templates st))"
  shows "distinct (map t_id (templates (saveTemplate now st)))"
proof -
  let ?sid = "save_id now st" and ?nxt = "save_next now st"
  have idn: "t_id ?nxt = Some ?sid" by (simp add: save_next_def)
  show ?thesis
  proof (cases "\<exists>t \<in> set (templates st). t_id t = Some ?sid")
    case True
    have "map t_id (map (\<lambda>t. if t_id t = Some ?sid then ?nxt else t) (templates st))
          = map t_id (templates st)"
      using idn by (induction "templates st") auto
    then have "map t_id (templates (saveTemplate now st)) = map t_id (templates st)"
      using True by (simp add: saveTemplate_def Let_def list_ex_iff)
    with assms show ?thesis by simp
  next
    case False
    then have "Some ?sid \<notin> set (map t_id (templates st))" by auto
    moreover have "templates (saveTemplate now st) = ?nxt # templates st"
      using False by (simp add: saveTemplate_def Let_def list_ex_iff)
    ultimately show ?thesis using assms idn by simp
  qed
qed

lemma delete_distinct:
  assumes "distinct (map t_id (templates st))"
  shows "distinct (map t_id (templates (deleteTemplate confirm t st)))"
  using assms by (simp add: deleteTemplate_def resetEditor_def Let_def distinct_map_filter)

text \<open>
  C7 (as amended). From a collection with pairwise distinct ids, saving and deleting
  give a collection with pairwise distinct ids. An import gives the parsed array as it
  is (and leaves the collection alone when it fails), so after an import the ids are
  pairwise distinct exactly when the import failed or the ids in the file are.
\<close>

theorem ids_distinct_preserved:
  assumes "distinct (map t_id (templates st))"
  shows "distinct (map t_id (templates (saveTemplate now st))) \<and>
         distinct (map t_id (templates (deleteTemplate confirm t st))) \<and>
         templates (importTemplates JSON_parse result st) =
           (case JSON_parse result of Inr (JArray ts) \<Rightarrow> ts | _ \<Rightarrow> templates st) \<and>
         (distinct (map t_id (templates (importTemplates JSON_parse result st))) \<longleftrightarrow>
            (case JSON_parse result of Inr (JArray ts) \<Rightarrow> distinct (map t_id ts) | _ \<Rightarrow> True))"
  using assms save_distinct [OF assms] delete_distinct [OF assms]
  by (auto simp: import_templates split: sum.splits jsvalue.splits)

theorem ids_distinct_preserved_witness:
  "distinct (map t_id (templates initial_app)) \<and>
   distinct (map t_id (templates (saveTemplate 1730000000000 initial_app))) \<and>
   distinct (map t_id (templates (deleteTemplate (\<lambda>_. True) code_review initial_app))) \<and>
   templates (importTemplates sample_JSON_parse note_file initial_app) = [note_template] \<and>
   distinct (map t_id (templates (importTemplates sample_JSON_parse note_file initial_app)))"
proof -
  have d: "distinct (map t_id (templates initial_app))"
    by (simp add: initial_app_def seed_ids)
  from ids_distinct_preserved [OF d, where now = 1730000000000 and confirm = "\<lambda>_. True"
      and t = code_review and JSON_parse = sample_JSON_parse and result = note_file] d
  show ?thesis by (simp add: sample_parse_values)
qed

text \<open>
  The claim as written fails for import: the seed collection has distinct ids, the file
  \<open>dup_file\<close> parses to two templates with the id \<^verbatim>\<open>a\<close>, and after the import the
  collection holds both.
\<close>

theorem import_duplicate_ids_counterexample:
  "distinct (map t_id (templates initial_app)) \<and>
   sample_JSON_parse dup_file = Inr (JArray dup_templates) \<and>
   templates (importTemplates sample_JSON_parse dup_file initial_app) = dup_templates \<and>
   \<not> distinct (map t_id (templates (importTemplates sample_JSON_parse dup_file initial_app)))"
  by (simp add: import_templates sample_parse_values dup_templates_def initial_app_def seed_ids)

section \<open>The JSON text functions: proofs\<close>

lemma hex_value_digit: "d < 16 \<Longrightarrow> hex_value (hex_digit d) = Some d"
proof -
  assume "d < 16"
  then consider "d = 0" | "d = 1" | "d = 2" | "d = 3" | "d = 4" | "d = 5" | "d = 6" | "d = 7"
    | "d = 8" | "d = 9" | "d = 10" | "d = 11" | "d = 12" | "d = 13" | "d = 14" | "d = 15"
    by atomize_elim arith
  then show ?thesis
    by cases (simp_all add: hex_digit_def hex_value_def)
qed

lemma char_code_eq: "(c = d) = ((of_char c :: nat) = of_char d)"
  by simp

lemma cons_read_Read: "cons_read (Read c) (Read (s, rest)) = Read (c # s, rest)"
  by (simp add: cons_read_def bind_read_def)

lemma char_of_code: "char_of (of_char c :: nat) = c"
  by simp

lemma char_by_code: "(of_char c :: nat) = n \<Longrightarrow> (of_char d :: nat) = n \<Longrightarrow> c = d"
  by (metis of_char_eq_iff)

lemma read_escaped:
  "c \<in> set [CHR 0x08, CHR 0x09, CHR 0x0A, CHR 0x0C, CHR 0x0D, CHR 0x22, CHR 0x5C] \<Longrightarrow>
   read_string (quote_char c @ tail) = cons_read (Read c) (read_string tail)"
  by (auto simp: quote_char_def backslash_def simple_escape_def)

lemma read_quote_char:
  "read_string (quote_char c @ tail) = cons_read (Read c) (read_string tail)"
proof -
  let ?n = "of_char c :: nat"
  consider (esc) "?n \<in> {8, 9, 10, 12, 13, 34, 92}"
    | (ctl) "?n < 32" "?n \<notin> {8, 9, 10, 12, 13}"
    | (plain) "32 \<le> ?n" "?n \<noteq> 34" "?n \<noteq> 92"
    by fastforce
  then show ?thesis
  proof cases
    case esc
    then have "c \<in> set [CHR 0x08, CHR 0x09, CHR 0x0A, CHR 0x0C, CHR 0x0D, CHR 0x22, CHR 0x5C]"
      by (auto intro: char_by_code [where d = "CHR 0x08"] char_by_code [where d = "CHR 0x09"]
          char_by_code [where d = "CHR 0x0A"] char_by_code [where d = "CHR 0x0C"]
          char_by_code [where d = "CHR 0x0D"] char_by_code [where d = "CHR 0x22"]
          char_by_code [where d = "CHR 0x5C"])
    then show ?thesis by (rule read_escaped)
  next
    case ctl
    have d: "?n div 16 < 16" "?n mod 16 < 16" using ctl by simp_all
    have c: "char_of (16 * (?n div 16) + ?n mod 16) = c" by simp
    from ctl have q: "quote_char c =
        [backslash, CHR ''u'', CHR ''0'', CHR ''0'', hex_digit (?n div 16), hex_digit (?n mod 16)]"
      by (auto simp: quote_char_def Let_def)
    have u: "unicode_escape (CHR ''0'') (CHR ''0'') (hex_digit (?n div 16)) (hex_digit (?n mod 16)) = Read c"
      using c by (simp add: unicode_escape_def hex_value_digit d) (simp add: hex_value_def)
    show ?thesis
      by (simp add: q u backslash_def)
  next
    case plain
    then have q: "quote_char c = [c]" by (auto simp: quote_char_def Let_def)
    from plain have "c \<noteq> CHR 0x22" "c \<noteq> backslash"
      by (auto simp: backslash_def)
    with plain show ?thesis by (simp add: q)
  qed
qed

lemma read_quoted:
  "read_string (concat (map quote_char s) @ CHR 0x22 # rest) = Read (s, rest)"
  by (induction s) (simp_all add: read_quote_char cons_read_Read)

lemma skip_ws_blank: "list_all is_json_ws w \<Longrightarrow> skip_ws (w @ s) = skip_ws s"
  by (simp add: skip_ws_def list_all_iff)

lemma skip_ws_start: "\<not> is_json_ws c \<Longrightarrow> skip_ws (c # s) = c # s"
  by (simp add: skip_ws_def)

lemma skip_ws_newline: "skip_ws (CHR 0x0A # s) = skip_ws s"
  by (simp add: skip_ws_def is_json_ws_def)

lemma skip_ws_space: "skip_ws (CHR '' '' # s) = skip_ws s"
  by (simp add: skip_ws_def is_json_ws_def)

lemma not_ws:
  "\<not> is_json_ws (CHR 0x22)" "\<not> is_json_ws (CHR ''['')" "\<not> is_json_ws (CHR '']'')"
  "\<not> is_json_ws (CHR ''{'')" "\<not> is_json_ws (CHR ''}'')" "\<not> is_json_ws (CHR '','')"
  "\<not> is_json_ws (CHR '':'')" "\<not> is_json_ws (CHR ''n'')" "\<not> is_json_ws (CHR ''t'')"
  "\<not> is_json_ws (CHR ''f'')"
  by (simp_all add: is_json_ws_def)

lemma is_ws:
  "is_json_ws (CHR 0x0A)" "is_json_ws (CHR '' '')"
  by (simp_all add: is_json_ws_def)

lemma join_Cons: "join sep (x # xs) = x @ (if xs = [] then [] else sep @ join sep xs)"
  by (cases xs) simp_all

lemma stringify_start:
  "plain v \<Longrightarrow> \<exists>c r. stringify ind v = c # r \<and>
     c \<in> set [CHR 0x22, CHR ''['', CHR ''{'', CHR ''n'', CHR ''t'', CHR ''f'']"
  by (cases v) (auto simp: QuoteJSONString_def)

lemma skip_ws_value:
  assumes "plain v" and "list_all is_json_ws w"
  shows "\<exists>c r. skip_ws (w @ stringify ind v @ rest) = c # r \<and> c \<noteq> CHR '']'' \<and> c \<noteq> CHR ''}''"
proof -
  from stringify_start [OF assms(1), of ind] obtain c r where
    s: "stringify ind v = c # r" and
    c: "c \<in> set [CHR 0x22, CHR ''['', CHR ''{'', CHR ''n'', CHR ''t'', CHR ''f'']"
    by blast
  from c have "\<not> is_json_ws c" "c \<noteq> CHR '']''" "c \<noteq> CHR ''}''"
    using not_ws by auto
  then show ?thesis by (simp add: skip_ws_blank [OF assms(2)] s skip_ws_start)
qed

lemma read_items_back:
  assumes elems: "\<And>x w rest fuel. x \<in> set xs \<Longrightarrow> list_all is_json_ws w \<Longrightarrow>
      length (stringify ind2 x) \<le> fuel \<Longrightarrow>
      read_value fuel (w @ stringify ind2 x @ rest) = Read (x, rest)"
    and "xs \<noteq> []" and "list_all is_json_ws w" and "list_all is_json_ws ind"
    and "list_all is_json_ws ind2"
    and "length (join (CHR '','' # CHR 0x0A # ind2) (map (stringify ind2) xs)) < fuel"
  shows "read_items fuel (w @ join (CHR '','' # CHR 0x0A # ind2) (map (stringify ind2) xs) @
           CHR 0x0A # ind @ CHR '']'' # rest) = Read (xs, rest)"
  using assms
proof (induction xs arbitrary: w fuel)
  case Nil
  then show ?case by simp
next
  case (Cons x xs)
  let ?sep = "CHR '','' # CHR 0x0A # ind2"
  from Cons.prems(6) obtain n where fuel: "fuel = Suc n"
    by (cases fuel) simp_all
  have close: "skip_ws (CHR 0x0A # ind @ CHR '']'' # rest) = CHR '']'' # rest"
    using skip_ws_blank [OF Cons.prems(4), of "CHR '']'' # rest"]
    by (simp add: skip_ws_newline skip_ws_start not_ws)
  show ?case
  proof (cases "xs = []")
    case True
    from Cons.prems(6) have n: "length (stringify ind2 x) \<le> n"
      by (simp add: True fuel)
    have v: "read_value n (w @ stringify ind2 x @ CHR 0x0A # ind @ CHR '']'' # rest) =
        Read (x, CHR 0x0A # ind @ CHR '']'' # rest)"
      by (rule Cons.prems(1)) (simp_all add: Cons.prems(3) n)
    show ?thesis
      by (simp add: True fuel v bind_read_def close)
  next
    case False
    let ?more = "join ?sep (map (stringify ind2) xs)"
    let ?tail = "?more @ CHR 0x0A # ind @ CHR '']'' # rest"
    from Cons.prems(6) have len:
      "length (stringify ind2 x) + (2 + length ind2) + length ?more < Suc n"
      by (simp add: join_Cons False fuel)
    have v: "read_value n (w @ stringify ind2 x @ ?sep @ ?tail) = Read (x, ?sep @ ?tail)"
      by (rule Cons.prems(1)) (use len in \<open>simp_all add: Cons.prems(3)\<close>)
    have w': "list_all is_json_ws (CHR 0x0A # ind2)"
      using Cons.prems(5) by (simp add: is_ws)
    have ih: "read_items n ((CHR 0x0A # ind2) @ ?tail) = Read (xs, rest)"
    proof (rule Cons.IH)
      show "length ?more < n" using len by simp
    qed (use Cons.prems False w' in \<open>simp_all\<close>)
    show ?thesis
      using v ih
      by (simp add: join_Cons False fuel bind_read_def skip_ws_start not_ws)
  qed
qed

lemma read_members_back:
  assumes elems: "\<And>m w rest fuel. m \<in> set ms \<Longrightarrow> list_all is_json_ws w \<Longrightarrow>
      length (stringify ind2 (snd m)) \<le> fuel \<Longrightarrow>
      read_value fuel (w @ stringify ind2 (snd m) @ rest) = Read (snd m, rest)"
    and "ms \<noteq> []" and "list_all is_json_ws w" and "list_all is_json_ws ind"
    and "list_all is_json_ws ind2"
    and "length (join (CHR '','' # CHR 0x0A # ind2) (map (member_text ind2) ms)) < fuel"
  shows "read_members fuel (w @ join (CHR '','' # CHR 0x0A # ind2) (map (member_text ind2) ms) @
           CHR 0x0A # ind @ CHR ''}'' # rest) = Read (ms, rest)"
  using assms
proof (induction ms arbitrary: w fuel)
  case Nil
  then show ?case by simp
next
  case (Cons m ms)
  let ?sep = "CHR '','' # CHR 0x0A # ind2"
  obtain key v where m: "m = (key, v)" by (cases m)
  from Cons.prems(6) obtain n where fuel: "fuel = Suc n"
    by (cases fuel) simp_all
  have close: "skip_ws (CHR 0x0A # ind @ CHR ''}'' # rest) = CHR ''}'' # rest"
    using skip_ws_blank [OF Cons.prems(4), of "CHR ''}'' # rest"]
    by (simp add: skip_ws_newline skip_ws_start not_ws)
  have mt: "member_text ind2 (key, v) =
      CHR 0x22 # concat (map quote_char key) @ CHR 0x22 # CHR '':'' # CHR '' '' # stringify ind2 v"
    by (simp add: member_text_def QuoteJSONString_def)
  note rd = mt skip_ws_blank [OF Cons.prems(3)] skip_ws_start not_ws read_quoted bind_read_def
  show ?case
  proof (cases "ms = []")
    case True
    from Cons.prems(6) have n: "length (stringify ind2 v) \<le> n"
      by (simp add: True fuel member_text_def m)
    have val: "read_value n ('' '' @ stringify ind2 (snd m) @ CHR 0x0A # ind @ CHR ''}'' # rest) =
        Read (snd m, CHR 0x0A # ind @ CHR ''}'' # rest)"
      by (rule Cons.prems(1)) (simp_all add: is_ws n m)
    show ?thesis
      using val by (simp add: True fuel m rd close)
  next
    case False
    let ?more = "join ?sep (map (member_text ind2) ms)"
    let ?tail = "?more @ CHR 0x0A # ind @ CHR ''}'' # rest"
    have "length (stringify ind2 v) + 4 \<le> length (member_text ind2 m)"
      by (simp add: member_text_def m QuoteJSONString_def)
    with Cons.prems(6) have len:
      "length (stringify ind2 v) + (2 + length ind2) + length ?more < n"
      by (simp add: join_Cons False fuel)
    have val: "read_value n ('' '' @ stringify ind2 (snd m) @ ?sep @ ?tail) = Read (snd m, ?sep @ ?tail)"
      by (rule Cons.prems(1)) (use len in \<open>simp_all add: is_ws m\<close>)
    have w': "list_all is_json_ws (CHR 0x0A # ind2)"
      using Cons.prems(5) by (simp add: is_ws)
    have ih: "read_members n ((CHR 0x0A # ind2) @ ?tail) = Read (ms, rest)"
    proof (rule Cons.IH)
      show "length ?more < n" using len by simp
    qed (use Cons.prems False w' in \<open>simp_all\<close>)
    show ?thesis
      using val ih by (simp add: join_Cons False fuel m rd)
  qed
qed

lemma fold_put_member:
  "distinct (map fst (acc @ ms)) \<Longrightarrow> fold put_member ms acc = acc @ ms"
proof (induction ms arbitrary: acc)
  case Nil
  then show ?case by simp
next
  case (Cons m ms)
  from Cons.prems have "fst m \<notin> fst ` set acc" by auto
  then have "put_member m acc = acc @ [m]" by (simp add: put_member_def)
  moreover have "distinct (map fst ((acc @ [m]) @ ms))" using Cons.prems by simp
  ultimately show ?case using Cons.IH [of "acc @ [m]"] by simp
qed

lemma object_of_plain_members:
  "distinct (map fst ms) \<Longrightarrow> \<not> list_ex (\<lambda>m. digits_only (fst m)) ms \<Longrightarrow>
   object_of_members ms = Read (JObj ms)"
  using fold_put_member [of "[]" ms] by (simp add: object_of_members_def)

lemma read_value_back:
  "plain v \<Longrightarrow> list_all is_json_ws ind \<Longrightarrow> list_all is_json_ws w \<Longrightarrow>
   length (stringify ind v) \<le> fuel \<Longrightarrow>
   read_value fuel (w @ stringify ind v @ rest) = Read (v, rest)"
proof (induction v arbitrary: ind w fuel rest)
  case JNull
  then obtain n where "fuel = Suc n" by (cases fuel) simp_all
  then show ?case
    by (simp add: skip_ws_blank [OF JNull.prems(3)] skip_ws_start not_ws is_digit_def
        read_literal_def)
next
  case (JBool b)
  then obtain n where "fuel = Suc n" by (cases fuel) (simp_all split: if_splits)
  then show ?case
    by (simp add: skip_ws_blank [OF JBool.prems(3)] skip_ws_start not_ws is_digit_def
        read_literal_def)
next
  case (JNum n)
  then show ?case by simp
next
  case (JStr s)
  then obtain n where "fuel = Suc n" by (cases fuel) (simp_all add: QuoteJSONString_def)
  then show ?case
    by (simp add: QuoteJSONString_def skip_ws_blank [OF JStr.prems(3)] skip_ws_start not_ws
        read_quoted bind_read_def)
next
  case (JArr xs)
  let ?ind2 = "ind @ ''  ''"
  let ?sep = "CHR '','' # CHR 0x0A # ?ind2"
  show ?case
  proof (cases "xs = []")
    case True
    from JArr.prems(4) obtain n where "fuel = Suc n" by (cases fuel) (simp_all add: True)
    then show ?thesis
      by (simp add: True skip_ws_blank [OF JArr.prems(3)] skip_ws_start not_ws)
  next
    case False
    let ?items = "join ?sep (map (stringify ?ind2) xs)"
    have shape: "stringify ind (JArr xs) =
        CHR ''['' # (CHR 0x0A # ?ind2) @ ?items @ CHR 0x0A # ind @ CHR '']'' # []"
      by (simp add: False)
    from JArr.prems(4) obtain n where fuel: "fuel = Suc n" and n: "length ?items < n"
      by (cases fuel) (simp_all add: shape del: stringify.simps)
    have ind2: "list_all is_json_ws ?ind2" using JArr.prems(2) by (simp add: is_ws)
    have w2: "list_all is_json_ws (CHR 0x0A # ?ind2)" using ind2 by (simp add: is_ws)
    from False obtain x xs' where xs: "xs = x # xs'" by (cases xs) auto
    have px: "plain x" using JArr.prems(1) by (simp add: xs)
    have first: "\<And>tl. \<exists>c r. skip_ws ((CHR 0x0A # ?ind2) @ stringify ?ind2 x @ tl) = c # r \<and> c \<noteq> CHR '']''"
      using skip_ws_value [OF px w2] by blast
    have items: "read_items n ((CHR 0x0A # ?ind2) @ ?items @ CHR 0x0A # ind @ CHR '']'' # rest) =
        Read (xs, rest)"
    proof (rule read_items_back)
      fix x w rest fuel
      assume "x \<in> set xs" "list_all is_json_ws w" "length (stringify ?ind2 x) \<le> fuel"
      then show "read_value fuel (w @ stringify ?ind2 x @ rest) = Read (x, rest)"
        using JArr.IH [of x ?ind2 w fuel rest] JArr.prems(1) ind2
        by (simp add: list_all_iff)
    qed (use False w2 ind2 JArr.prems n in \<open>simp_all\<close>)
    from first [of "(if xs' = [] then [] else ?sep @ join ?sep (map (stringify ?ind2) xs')) @
        CHR 0x0A # ind @ CHR '']'' # rest"]
    obtain c r where sk: "skip_ws ((CHR 0x0A # ?ind2) @ ?items @ CHR 0x0A # ind @ CHR '']'' # rest) = c # r"
      and c: "c \<noteq> CHR '']''"
      by (auto simp: xs join_Cons)
    show ?thesis
      using items sk c
      by (simp add: shape fuel skip_ws_blank [OF JArr.prems(3)] skip_ws_start not_ws bind_read_def
          del: stringify.simps)
  qed
next
  case (JObj ms)
  let ?ind2 = "ind @ ''  ''"
  let ?sep = "CHR '','' # CHR 0x0A # ?ind2"
  show ?case
  proof (cases "ms = []")
    case True
    from JObj.prems(4) obtain n where "fuel = Suc n" by (cases fuel) (simp_all add: True)
    then show ?thesis
      by (simp add: True skip_ws_blank [OF JObj.prems(3)] skip_ws_start not_ws)
  next
    case False
    let ?items = "join ?sep (map (member_text ?ind2) ms)"
    have shape: "stringify ind (JObj ms) =
        CHR ''{'' # (CHR 0x0A # ?ind2) @ ?items @ CHR 0x0A # ind @ CHR ''}'' # []"
      by (simp add: False member_text_def [abs_def])
    from JObj.prems(4) obtain n where fuel: "fuel = Suc n" and n: "length ?items < n"
      by (cases fuel) (simp_all add: shape del: stringify.simps)
    have ind2: "list_all is_json_ws ?ind2" using JObj.prems(2) by (simp add: is_ws)
    have w2: "list_all is_json_ws (CHR 0x0A # ?ind2)" using ind2 by (simp add: is_ws)
    from False obtain m ms' where ms: "ms = m # ms'" by (cases ms) auto
    obtain body where items_eq: "?items @ CHR 0x0A # ind @ CHR ''}'' # rest = CHR 0x22 # body"
      by (simp add: ms join_Cons member_text_def QuoteJSONString_def)
    have sk: "skip_ws ((CHR 0x0A # ?ind2) @ ?items @ CHR 0x0A # ind @ CHR ''}'' # rest) =
        CHR 0x22 # body"
      by (simp only: skip_ws_blank [OF w2] items_eq skip_ws_start [OF not_ws(1)])
    have members: "read_members n ((CHR 0x0A # ?ind2) @ ?items @ CHR 0x0A # ind @ CHR ''}'' # rest) =
        Read (ms, rest)"
    proof (rule read_members_back)
      fix m w rest fuel
      assume "m \<in> set ms" "list_all is_json_ws w" "length (stringify ?ind2 (snd m)) \<le> fuel"
      then show "read_value fuel (w @ stringify ?ind2 (snd m) @ rest) = Read (snd m, rest)"
        using JObj.IH [of m "snd m" ?ind2 w fuel rest] JObj.prems(1) ind2
        by (simp add: list_all_iff Basic_BNFs.snds.intros)
    qed (use False w2 ind2 JObj.prems n in \<open>simp_all\<close>)
    have obj: "object_of_members ms = Read (JObj ms)"
      using JObj.prems(1) by (intro object_of_plain_members) simp_all
    show ?thesis
      using members sk obj
      by (simp add: shape fuel skip_ws_blank [OF JObj.prems(3)] skip_ws_start not_ws bind_read_def
          del: stringify.simps)
  qed
qed

lemma parse_stringify: "plain v \<Longrightarrow> JSON_parse_text (stringify [] v) = Read v"
  using read_value_back [of v "[]" "[]" "Suc (length (stringify [] v))" "[]"]
  by (simp add: JSON_parse_text_def bind_read_def skip_ws_def)

lemma concat_obj_member:
  "concat (map (\<lambda>p. obj_member (fst p) (snd p)) ps) =
     map (\<lambda>p. (fst p, the (snd p))) (filter (\<lambda>p. snd p \<noteq> None) ps)"
  by (induction ps) (auto simp: obj_member_def)

lemma js_of_template_members:
  "js_of_template t =
     JObj (map (\<lambda>p. (fst p, the (snd p))) (filter (\<lambda>p. snd p \<noteq> None) (template_members t)))"
  unfolding concat_obj_member [symmetric]
  by (simp add: js_of_template_def template_members_def)

lemma template_keys: "map fst (template_members t) = 
    [''id'', ''name'', ''tags'', ''context'', ''task'', ''rules'', ''format'', ''examples'']"
  by (simp add: template_members_def)

lemma template_keys_distinct:
  "distinct (map fst (map (\<lambda>p. (fst p, the (snd p))) (filter (\<lambda>p. snd p \<noteq> None) (template_members t))))"
proof -
  have "distinct (map fst (template_members t))" by (simp add: template_keys)
  then have "distinct (map fst (filter (\<lambda>p. snd p \<noteq> None) (template_members t)))"
    by (rule distinct_map_filter)
  then show ?thesis by (simp add: o_def)
qed

lemma present_members_all:
  assumes "list_all (\<lambda>p. snd p \<noteq> None \<longrightarrow> Q (fst p, the (snd p))) ps"
  shows "list_all Q (map (\<lambda>p. (fst p, the (snd p))) (filter (\<lambda>p. snd p \<noteq> None) ps))"
  using assms by (induction ps) auto

lemma as_strings_strings_json: "as_strings (strings_json xs) = Some xs"
  by (induction xs) (simp_all add: strings_json_def)

lemma plain_strings_json: "plain (strings_json xs)"
  by (simp add: strings_json_def list_all_iff)

lemma not_digits_only:
  "\<not> digits_only ''id''" "\<not> digits_only ''name''" "\<not> digits_only ''tags''"
  "\<not> digits_only ''context''" "\<not> digits_only ''task''" "\<not> digits_only ''rules''"
  "\<not> digits_only ''format''" "\<not> digits_only ''examples''"
  by (simp_all add: digits_only_def is_digit_def)

lemma list_all_not_ex: "list_all (\<lambda>x. \<not> P x) xs \<Longrightarrow> \<not> list_ex P xs"
  by (simp add: list_all_iff list_ex_iff)

lemma plain_js_of_template: "plain (js_of_template t)"
proof -
  let ?ms = "map (\<lambda>p. (fst p, the (snd p))) (filter (\<lambda>p. snd p \<noteq> None) (template_members t))"
  have a: "list_all (\<lambda>m. \<not> digits_only (fst m)) ?ms"
    by (rule present_members_all) (simp add: template_members_def not_digits_only)
  have b: "list_all (\<lambda>m. plain (snd m)) ?ms"
    by (rule present_members_all)
       (auto simp: template_members_def plain_strings_json split: option.splits)
  from a have "\<not> list_ex (\<lambda>m. digits_only (fst m)) ?ms"
    by (rule list_all_not_ex)
  with b template_keys_distinct [of t] show ?thesis
    by (simp add: js_of_template_members)
qed

lemma wellshaped_js_of_template:
  "list_all wellshaped_member
     (map (\<lambda>p. (fst p, the (snd p))) (filter (\<lambda>p. snd p \<noteq> None) (template_members t)))"
  by (rule present_members_all)
     (auto simp: template_members_def wellshaped_member_def string_keys_def list_keys_def
        as_strings_strings_json split: option.splits)

lemma map_of_present:
  "distinct (map fst ps) \<Longrightarrow>
   map_of (map (\<lambda>p. (fst p, the (snd p))) (filter (\<lambda>p. snd p \<noteq> None) ps)) key =
     (case map_of ps key of None \<Rightarrow> None | Some v \<Rightarrow> v)"
proof (induction ps)
  case Nil
  then show ?case by simp
next
  case (Cons p ps)
  obtain k v where p: "p = (k, v)" by (cases p)
  from Cons.prems have "k \<notin> fst ` set ps" by (simp add: p)
  then have "map_of ps k = None" by (simp add: map_of_eq_None_iff)
  with Cons show ?case by (cases v) (auto simp: p)
qed

lemma map_of_template:
  "map_of (map (\<lambda>p. (fst p, the (snd p))) (filter (\<lambda>p. snd p \<noteq> None) (template_members t))) key =
     (case map_of (template_members t) key of None \<Rightarrow> None | Some v \<Rightarrow> v)"
  by (rule map_of_present) (simp add: template_keys)

lemma template_of_js_of_template: "template_of_js (js_of_template t) = Some t"
proof -
  define ms where
    "ms = map (\<lambda>p. (fst p, the (snd p))) (filter (\<lambda>p. snd p \<noteq> None) (template_members t))"
  have obj: "js_of_template t = JObj ms"
    unfolding ms_def by (rule js_of_template_members)
  have d: "distinct (map fst ms)"
    unfolding ms_def by (rule template_keys_distinct)
  have w: "list_all wellshaped_member ms"
    unfolding ms_def by (rule wellshaped_js_of_template)
  have m: "\<And>key. map_of ms key =
      (case map_of (template_members t) key of None \<Rightarrow> None | Some v \<Rightarrow> v)"
    unfolding ms_def by (rule map_of_template)
  have fields:
    "string_field ms ''id'' = t_id t" "string_field ms ''name'' = t_name t"
    "list_field ms ''tags'' = t_tags t" "string_field ms ''context'' = t_context t"
    "string_field ms ''task'' = t_task t" "list_field ms ''rules'' = t_rules t"
    "string_field ms ''format'' = t_format t" "list_field ms ''examples'' = t_examples t"
    unfolding string_field_def list_field_def m
    by (simp_all add: template_members_def as_strings_strings_json split: option.splits)
  show ?thesis
    by (simp add: obj d w fields)
qed

lemma those_template_of_js: "those (map (template_of_js \<circ> js_of_template) ts) = Some ts"
  by (induction ts) (simp_all add: template_of_js_of_template)

lemma plain_collection: "plain (JArr (map js_of_template ts))"
  by (simp add: list_all_iff plain_js_of_template)

lemma parse_stringify_model:
  "JSON_parse_model (JSON_stringify_model (JArray ts)) = Inr (JArray ts)"
  using parse_stringify [OF plain_collection, of ts]
  by (simp add: JSON_parse_model_def JSON_stringify_model_def those_template_of_js
      del: stringify.simps)

text \<open>
  C8. For every collection of templates, the exported document, which is the collection
  pretty-printed as a JSON array with an indentation of two spaces, parses to the JSON
  value of that collection, and importing it makes the collection equal to the exported
  one, the same templates in the same order with the same fields; no message is shown
  and nothing else of the state changes.
\<close>

theorem export_import_roundtrip:
  "JSON_parse_text (exportTemplates JSON_stringify_model st) =
     Read (JArr (map js_of_template (templates st))) \<and>
   importTemplates JSON_parse_model (exportTemplates JSON_stringify_model st) st' =
     st'\<lparr>templates := templates st\<rparr>"
proof -
  have text_value: "JSON_parse_text (exportTemplates JSON_stringify_model st) =
      Read (JArr (map js_of_template (templates st)))"
    using parse_stringify [OF plain_collection, of "templates st"]
    by (simp add: exportTemplates_def JSON_stringify_model_def del: stringify.simps)
  have imported: "importTemplates JSON_parse_model (exportTemplates JSON_stringify_model st) st' =
      st'\<lparr>templates := templates st\<rparr>"
    by (simp add: importTemplates_def import_try_def exportTemplates_def parse_stringify_model)
  from text_value imported show ?thesis by blast
qed

theorem export_import_roundtrip_witness:
  "exportTemplates JSON_stringify_model (initial_app\<lparr>templates := [note_template]\<rparr>) = note_file \<and>
   importTemplates JSON_parse_model note_file (initial_app\<lparr>templates := []\<rparr>) =
     initial_app\<lparr>templates := [note_template]\<rparr> \<and>
   JSON_parse_model dup_file = Inr (JArray dup_templates) \<and>
   templates (importTemplates JSON_parse_model (exportTemplates JSON_stringify_model initial_app)
     (initial_app\<lparr>templates := []\<rparr>)) = DEFAULT_TEMPLATES"
proof -
  have e: "exportTemplates JSON_stringify_model (initial_app\<lparr>templates := [note_template]\<rparr>) =
      note_file"
    by code_simp
  have d: "JSON_parse_model dup_file = Inr (JArray dup_templates)"
    by code_simp
  have s: "templates initial_app = DEFAULT_TEMPLATES"
    by (simp add: initial_app_def)
  from export_import_roundtrip [of "initial_app\<lparr>templates := [note_template]\<rparr>"
      "initial_app\<lparr>templates := []\<rparr>"]
    export_import_roundtrip [of initial_app "initial_app\<lparr>templates := []\<rparr>"] e d s
  show ?thesis by simp
qed

section \<open>Templates with absent fields: proofs\<close>

lemma searchable_fill_absent: "searchable (fill_absent t) = searchable t"
  by (simp add: searchable_def fill_absent_def)

lemma filtered_fill_absent:
  "map fill_absent (filtered ts q tg) = filtered (map fill_absent ts) q tg"
  unfolding filtered_def Let_def filter_map o_def searchable_fill_absent
  by (simp add: fill_absent_def)

lemma allTags_fill_absent: "allTags (map fill_absent ts) = allTags ts"
  by (simp add: allTags_def o_def fill_absent_def)

lemma allTags_skip: "t_tags t = None \<Longrightarrow> allTags (ts1 @ t # ts2) = allTags (ts1 @ ts2)"
  by (simp add: allTags_def)

lemma absent_listed:
  assumes "t_tags t = None" and "t_rules t = None" and "t_examples t = None"
  shows "t \<in> set (filtered ts q tg) \<longleftrightarrow>
           t \<in> set ts \<and> whitespace_only tg \<and>
           (whitespace_only q \<or>
            sublist (spec_query q)
              (toLowerCase (join '' '' [join_item (t_name t), join_item (t_context t),
                 join_item (t_task t), join_item (t_format t)])))"
  using assms
  by (auto simp: filtered_filter spec_passes_text_def spec_passes_tag_def searchable_def)

lemma map_of_obj_member: "map_of (obj_member key v @ rest) k = (if k = key \<and> v \<noteq> None then v else map_of rest k)"
  by (cases v) (auto simp: obj_member_def)

lemma get_prop_template:
  "get_prop (js_of_template t) ''name'' = Inr (map_option JStr (t_name t))"
  "get_prop (js_of_template t) ''context'' = Inr (map_option JStr (t_context t))"
  "get_prop (js_of_template t) ''task'' = Inr (map_option JStr (t_task t))"
  "get_prop (js_of_template t) ''format'' = Inr (map_option JStr (t_format t))"
  "get_prop (js_of_template t) ''tags'' = Inr (map_option strings_json (t_tags t))"
  "get_prop (js_of_template t) ''rules'' = Inr (map_option strings_json (t_rules t))"
  "get_prop (js_of_template t) ''examples'' = Inr (map_option strings_json (t_examples t))"
  by (simp_all add: js_of_template_def map_of_obj_member obj_member_def split: option.splits)

lemma or_array_strings: "or_array (map_option strings_json v) = strings_json (or_empty v)"
  by (cases v) (simp_all add: or_array_def strings_json_def)

lemma spread_strings: "spread (strings_json xs) = Inr (map (\<lambda>x. Some (JStr x)) xs)"
  by (simp add: strings_json_def o_def)

lemma join_item_js_string: "join_item_js (map_option JStr v) = Inr (join_item v)"
  by (cases v) simp_all

lemma sequence_err_Inr: "sequence_err (map Inr xs) = Inr xs"
  by (induction xs) (simp_all add: bind_err_def)

lemma sequence_join_items:
  "sequence_err (map (join_item_js \<circ> (\<lambda>x. Some (JStr x))) xs) = Inr xs"
  by (induction xs) (simp_all add: bind_err_def)

lemma sequence_items:
  "sequence_err (map join_item_js (map (map_option JStr) vs @ map (\<lambda>x. Some (JStr x)) xs)) =
     Inr (map join_item vs @ xs)"
  by (induction vs) (simp_all add: sequence_join_items join_item_js_string bind_err_def)

lemma searchable_js_template: "searchable_js (js_of_template t) = Inr (searchable t)"
proof -
  let ?g = "\<lambda>x. Some (JStr x)"
  have l: "[map_option JStr (t_name t), map_option JStr (t_context t), map_option JStr (t_task t),
       map_option JStr (t_format t)] @ map ?g (or_empty (t_rules t)) @ map ?g (or_empty (t_examples t)) =
     map (map_option JStr) [t_name t, t_context t, t_task t, t_format t] @
     map ?g (or_empty (t_rules t) @ or_empty (t_examples t))"
    by simp
  have "searchable_js (js_of_template t) =
      Inr (join '' '' (map join_item [t_name t, t_context t, t_task t, t_format t] @
        or_empty (t_rules t) @ or_empty (t_examples t)))"
    by (simp only: searchable_js_def get_prop_template bind_err_def sum.case or_array_strings
        spread_strings l sequence_items)
  then show ?thesis by (simp add: searchable_def del: join.simps)
qed

lemma some_loop_strings:
  "some_loop (tag_includes tg) (map JStr xs) = Inr (list_ex (\<lambda>x. str_includes (toLowerCase x) tg) xs)"
  by (induction xs) (simp_all add: bind_err_def)

lemma filter_loop_template:
  assumes "\<And>t. f (js_of_template t) = Inr (P t)"
  shows "filter_loop f (map js_of_template ts) = Inr (map js_of_template (filter P ts))"
  by (induction ts) (simp_all add: assms bind_err_def)

lemma filtered_js_template:
  "filtered_js (map js_of_template ts) srch tagF = Inr (map js_of_template (filtered ts srch tagF))"
  unfolding filtered_js_def filtered_def Let_def
  by (rule filter_loop_template)
     (simp add: searchable_js_template get_prop_template or_array_strings strings_json_def
        some_loop_strings bind_err_def)

lemma flatMap_tags_template:
  "flatMap_tags (map js_of_template ts) = Inr (map JStr (concat (map (\<lambda>t. or_empty (t_tags t)) ts)))"
  by (induction ts) (simp_all add: get_prop_template or_array_strings strings_json_def bind_err_def)

lemma set_from_array_fold:
  "fold (\<lambda>x acc. if list_ex (same_value_zero x) acc then acc else acc @ [x]) (map JStr xs) (map JStr ys) =
   map JStr (fold (\<lambda>x acc. if x \<in> set acc then acc else acc @ [x]) xs ys)"
proof (induction xs arbitrary: ys)
  case Nil
  then show ?case by simp
next
  case (Cons x xs)
  have "list_ex (same_value_zero (JStr x)) (map JStr ys) \<longleftrightarrow> x \<in> set ys"
    by (auto simp: list_ex_iff)
  then show ?case using Cons [of ys] Cons [of "ys @ [x]"] by simp
qed

lemma set_from_array_strings: "set_from_array (map JStr xs) = map JStr (array_from_set xs)"
  using set_from_array_fold [of xs "[]"] by (simp add: set_from_array_def array_from_set_def)

lemma insort_key_tagged:
  "insort_key fst (x, g x) (map (\<lambda>s. (s, g s)) ys) = map (\<lambda>s. (s, g s)) (insort x ys)"
  by (induction ys) simp_all

lemma sort_key_tagged: "sort_key fst (map (\<lambda>s. (s, g s)) xs) = map (\<lambda>s. (s, g s)) (sort xs)"
  by (induction xs) (simp_all add: insort_key_tagged)

lemma array_sort_strings: "array_sort (map JStr xs) = Inr (map JStr (sort xs))"
proof (cases "length xs < 2")
  case True
  then have "sort xs = xs" by (cases xs; cases "tl xs") auto
  with True show ?thesis by (simp add: array_sort_def)
next
  case False
  have z: "zip xs (map JStr xs) = map (\<lambda>s. (s, JStr s)) xs"
    by (induction xs) simp_all
  from False show ?thesis
    by (simp add: array_sort_def sequence_err_Inr bind_err_def z sort_key_tagged o_def)
qed

lemma allTags_js_template: "allTags_js (map js_of_template ts) = Inr (map JStr (allTags ts))"
  by (simp add: allTags_js_def allTags_def flatMap_tags_template set_from_array_strings
      array_sort_strings bind_err_def)

lemma as_string_Some: "as_string v = Some s \<longleftrightarrow> v = JStr s"
  by (cases v) auto

lemma those_as_string: "those (map as_string xs) = Some ys \<longleftrightarrow> xs = map JStr ys"
proof (induction xs arbitrary: ys)
  case Nil
  then show ?case by auto
next
  case (Cons x xs)
  then show ?case by (cases x; cases ys) (auto split: option.splits)
qed

lemma as_strings_Some: "as_strings v = Some ys \<longleftrightarrow> v = strings_json ys"
  by (cases v) (auto simp: strings_json_def those_as_string)

lemma typed_string:
  assumes "case map_of ms key of None \<Rightarrow> True | Some v \<Rightarrow> as_string v \<noteq> None"
  shows "map_of ms key = map_option JStr (string_field ms key)"
proof (cases "map_of ms key")
  case None
  then show ?thesis by (simp add: string_field_def)
next
  case (Some v)
  with assms obtain s where "as_string v = Some s" by auto
  with Some show ?thesis by (simp add: string_field_def as_string_Some)
qed

lemma typed_strings:
  assumes "case map_of ms key of None \<Rightarrow> True | Some v \<Rightarrow> as_strings v \<noteq> None"
  shows "map_of ms key = map_option strings_json (list_field ms key)"
proof (cases "map_of ms key")
  case None
  then show ?thesis by (simp add: list_field_def)
next
  case (Some v)
  with assms obtain s where "as_strings v = Some s" by auto
  with Some show ?thesis by (simp add: list_field_def as_strings_Some as_strings_strings_json)
qed

lemma get_prop_typed:
  assumes "field_typed x"
  shows "get_prop x ''name'' = Inr (map_option JStr (t_name (typed_view x)))"
    "get_prop x ''context'' = Inr (map_option JStr (t_context (typed_view x)))"
    "get_prop x ''task'' = Inr (map_option JStr (t_task (typed_view x)))"
    "get_prop x ''format'' = Inr (map_option JStr (t_format (typed_view x)))"
    "get_prop x ''tags'' = Inr (map_option strings_json (t_tags (typed_view x)))"
    "get_prop x ''rules'' = Inr (map_option strings_json (t_rules (typed_view x)))"
    "get_prop x ''examples'' = Inr (map_option strings_json (t_examples (typed_view x)))"
proof -
  from assms obtain ms where x: "x = JObj ms" by (cases x) simp_all
  from assms have
    s: "\<And>key. key \<in> set text_keys \<Longrightarrow>
       (case map_of ms key of None \<Rightarrow> True | Some v \<Rightarrow> as_string v \<noteq> None)" and
    l: "\<And>key. key \<in> set list_keys \<Longrightarrow>
       (case map_of ms key of None \<Rightarrow> True | Some v \<Rightarrow> as_strings v \<noteq> None)"
    unfolding x field_typed.simps list_all_iff by blast+
  show "get_prop x ''name'' = Inr (map_option JStr (t_name (typed_view x)))"
    using typed_string [OF s [of "''name''"]] by (simp add: x text_keys_def typed_members_def)
  show "get_prop x ''context'' = Inr (map_option JStr (t_context (typed_view x)))"
    using typed_string [OF s [of "''context''"]] by (simp add: x text_keys_def typed_members_def)
  show "get_prop x ''task'' = Inr (map_option JStr (t_task (typed_view x)))"
    using typed_string [OF s [of "''task''"]] by (simp add: x text_keys_def typed_members_def)
  show "get_prop x ''format'' = Inr (map_option JStr (t_format (typed_view x)))"
    using typed_string [OF s [of "''format''"]] by (simp add: x text_keys_def typed_members_def)
  show "get_prop x ''tags'' = Inr (map_option strings_json (t_tags (typed_view x)))"
    using typed_strings [OF l [of "''tags''"]] by (simp add: x list_keys_def typed_members_def)
  show "get_prop x ''rules'' = Inr (map_option strings_json (t_rules (typed_view x)))"
    using typed_strings [OF l [of "''rules''"]] by (simp add: x list_keys_def typed_members_def)
  show "get_prop x ''examples'' = Inr (map_option strings_json (t_examples (typed_view x)))"
    using typed_strings [OF l [of "''examples''"]] by (simp add: x list_keys_def typed_members_def)
qed


lemma searchable_js_typed:
  assumes "field_typed x"
  shows "searchable_js x = Inr (searchable (typed_view x))"
proof -
  let ?g = "\<lambda>x. Some (JStr x)"
  let ?t = "typed_view x"
  have l: "[map_option JStr (t_name ?t), map_option JStr (t_context ?t), map_option JStr (t_task ?t),
       map_option JStr (t_format ?t)] @ map ?g (or_empty (t_rules ?t)) @ map ?g (or_empty (t_examples ?t)) =
     map (map_option JStr) [t_name ?t, t_context ?t, t_task ?t, t_format ?t] @
     map ?g (or_empty (t_rules ?t) @ or_empty (t_examples ?t))"
    by simp
  have "searchable_js x =
      Inr (join '' '' (map join_item [t_name ?t, t_context ?t, t_task ?t, t_format ?t] @
        or_empty (t_rules ?t) @ or_empty (t_examples ?t)))"
    by (simp only: searchable_js_def get_prop_typed [OF assms] bind_err_def sum.case or_array_strings
        spread_strings l sequence_items)
  then show ?thesis by (simp add: searchable_def del: join.simps)
qed

lemma filter_loop_typed:
  assumes "\<And>x. x \<in> set xs \<Longrightarrow> f x = Inr (P x)"
  shows "filter_loop f xs = Inr (filter P xs)"
  using assms by (induction xs) (simp_all add: bind_err_def)

lemma filtered_js_typed:
  assumes "list_all field_typed xs"
  shows "filtered_js xs srch tagF =
           Inr (filter (\<lambda>x. filtered [typed_view x] srch tagF \<noteq> []) xs)"
  unfolding filtered_js_def Let_def
proof (rule filter_loop_typed)
  fix x assume "x \<in> set xs"
  with assms have x: "field_typed x" by (simp add: list_all_iff)
  show "bind_err (if trim (toLowerCase (or_string srch [])) = [] then Inr True
          else bind_err (searchable_js x)
            (\<lambda>text. Inr (str_includes (toLowerCase text) (trim (toLowerCase (or_string srch []))))))
        (\<lambda>inText. bind_err (if trim (toLowerCase (or_string tagF [])) = [] then Inr True
           else bind_err (get_prop x ''tags'')
             (\<lambda>tags. call_some (or_array tags) (tag_includes (trim (toLowerCase (or_string tagF []))))))
          (\<lambda>inTag. Inr (inText \<and> inTag))) =
        Inr (filtered [typed_view x] srch tagF \<noteq> [])"
    by (simp add: searchable_js_typed [OF x] get_prop_typed [OF x] or_array_strings
        strings_json_def some_loop_strings bind_err_def filtered_def Let_def)
qed

lemma flatMap_tags_typed:
  assumes "list_all field_typed xs"
  shows "flatMap_tags xs =
           Inr (map JStr (concat (map (\<lambda>x. or_empty (t_tags (typed_view x))) xs)))"
  using assms
  by (induction xs) (simp_all add: get_prop_typed or_array_strings strings_json_def bind_err_def)

lemma allTags_js_typed:
  assumes "list_all field_typed xs"
  shows "allTags_js xs = Inr (map JStr (allTags (map typed_view xs)))"
  by (simp add: allTags_js_def allTags_def flatMap_tags_typed [OF assms] set_from_array_strings
      array_sort_strings bind_err_def o_def)

lemma field_typed_js_of_template: "field_typed (js_of_template t)"
proof -
  obtain ms where ms: "js_of_template t = JObj ms" by (simp add: js_of_template_def)
  have m: "map_of ms ''name'' = map_option JStr (t_name t)"
    "map_of ms ''context'' = map_option JStr (t_context t)"
    "map_of ms ''task'' = map_option JStr (t_task t)"
    "map_of ms ''format'' = map_option JStr (t_format t)"
    "map_of ms ''tags'' = map_option strings_json (t_tags t)"
    "map_of ms ''rules'' = map_option strings_json (t_rules t)"
    "map_of ms ''examples'' = map_option strings_json (t_examples t)"
    using get_prop_template [of t] unfolding ms by simp_all
  show ?thesis
    unfolding ms field_typed.simps text_keys_def list_keys_def
    by (simp add: m as_strings_strings_json split: option.splits)
qed

lemma typed_view_js_of_template: "typed_view (js_of_template t) = t"
proof -
  obtain ms where ms: "js_of_template t = JObj ms" by (simp add: js_of_template_def)
  have m: "map_of ms ''name'' = map_option JStr (t_name t)"
    "map_of ms ''context'' = map_option JStr (t_context t)"
    "map_of ms ''task'' = map_option JStr (t_task t)"
    "map_of ms ''format'' = map_option JStr (t_format t)"
    "map_of ms ''tags'' = map_option strings_json (t_tags t)"
    "map_of ms ''rules'' = map_option strings_json (t_rules t)"
    "map_of ms ''examples'' = map_option strings_json (t_examples t)"
    using get_prop_template [of t] unfolding ms by simp_all
  have i: "map_of ms ''id'' = map_option JStr (t_id t)"
    using ms by (auto simp: js_of_template_def map_of_obj_member obj_member_def split: option.splits)
  show ?thesis
    unfolding ms typed_view.simps typed_members_def
    by (simp add: m i string_field_def list_field_def as_strings_strings_json split: option.splits)
qed

text \<open>
  C10 (as amended). On a collection of template objects in which every field that the
  library view reads is absent or has its declared type (a string for name, context,
  task, format; an array of strings for tags, rules, examples), the filter and the
  all-tags view never throw: the filter keeps, in their order, the objects whose
  template the typed filter keeps, and the all-tags view is that of their templates.
  The typed functions read an absent \<^verbatim>\<open>tags\<close>, \<^verbatim>\<open>rules\<close> or \<^verbatim>\<open>examples\<close> as the empty
  sequence: both give the same result on a collection as on the collection with every
  absent sequence filled in as empty. In particular this holds of the objects that the
  application itself writes, which stand for their templates. A template without tags
  adds nothing to the all-tags view. A template with all three absent is still listed,
  exactly when the tag query is blank and the text query is blank or occurs in its name,
  context, task and format.
\<close>

theorem library_view_on_template_objects:
  "(list_all field_typed xs \<longrightarrow>
      filtered_js xs q tg = Inr (filter (\<lambda>x. filtered [typed_view x] q tg \<noteq> []) xs) \<and>
      allTags_js xs = Inr (map JStr (allTags (map typed_view xs)))) \<and>
   field_typed (js_of_template t) \<and> typed_view (js_of_template t) = t \<and>
   filtered_js (map js_of_template ts) q tg = Inr (map js_of_template (filtered ts q tg)) \<and>
   allTags_js (map js_of_template ts) = Inr (map JStr (allTags ts)) \<and>
   (t_tags t = None \<longleftrightarrow> get_prop (js_of_template t) ''tags'' = Inr None) \<and>
   map fill_absent (filtered ts q tg) = filtered (map fill_absent ts) q tg \<and>
   allTags (map fill_absent ts) = allTags ts \<and>
   (t_tags t = None \<longrightarrow> allTags (ts1 @ t # ts2) = allTags (ts1 @ ts2)) \<and>
   (t_tags t = None \<and> t_rules t = None \<and> t_examples t = None \<longrightarrow>
      (t \<in> set (filtered ts q tg) \<longleftrightarrow>
         t \<in> set ts \<and> whitespace_only tg \<and>
         (whitespace_only q \<or>
          sublist (spec_query q)
            (toLowerCase (join '' '' [join_item (t_name t), join_item (t_context t),
               join_item (t_task t), join_item (t_format t)])))))"
proof -
  have absent: "t_tags t = None \<longleftrightarrow> get_prop (js_of_template t) ''tags'' = Inr None"
    by (cases "t_tags t") (simp_all add: get_prop_template)
  have general: "list_all field_typed xs \<longrightarrow>
      filtered_js xs q tg = Inr (filter (\<lambda>x. filtered [typed_view x] q tg \<noteq> []) xs) \<and>
      allTags_js xs = Inr (map JStr (allTags (map typed_view xs)))"
    using filtered_js_typed allTags_js_typed by blast
  from general field_typed_js_of_template typed_view_js_of_template
    filtered_js_template allTags_js_template absent filtered_fill_absent
    allTags_fill_absent allTags_skip absent_listed
  show ?thesis by blast
qed

theorem library_view_on_template_objects_witness:
  "list_all field_typed [extra_object, js_of_template coding_template] \<and>
   filtered_js [extra_object, js_of_template coding_template] ''NOTE '' [] = Inr [extra_object] \<and>
   allTags_js [extra_object, js_of_template coding_template] = Inr [JStr ''coding''] \<and>
   t_tags bare_template = None \<and> t_rules bare_template = None \<and> t_examples bare_template = None \<and>
   filtered [bare_template, coding_template] ''NOTE '' [] = [bare_template] \<and>
   filtered_js (map js_of_template [bare_template, coding_template]) ''NOTE '' [] =
     Inr [js_of_template bare_template] \<and>
   bare_template \<in> set (filtered [bare_template, coding_template] ''NOTE '' []) \<and>
   allTags [bare_template, coding_template] = allTags [coding_template] \<and>
   allTags_js (map js_of_template [bare_template, coding_template]) = Inr [JStr ''coding'']"
proof -
  have a: "t_tags bare_template = None" "t_rules bare_template = None"
    "t_examples bare_template = None"
    by (simp_all add: bare_template_def)
  have f: "filtered [bare_template, coding_template] ''NOTE '' [] = [bare_template]"
    by code_simp
  have g: "allTags [bare_template, coding_template] = [''coding'']"
    by code_simp
  have h: "list_all field_typed [extra_object, js_of_template coding_template]"
    by code_simp
  have k: "filter (\<lambda>x. filtered [typed_view x] ''NOTE '' [] \<noteq> [])
      [extra_object, js_of_template coding_template] = [extra_object]"
    by code_simp
  have l: "allTags (map typed_view [extra_object, js_of_template coding_template]) = [''coding'']"
    by code_simp
  have m: "allTags [coding_template] = [''coding'']"
    by code_simp
  note view = library_view_on_template_objects [where t = bare_template and ?ts1.0 = "[]"
      and ?ts2.0 = "[coding_template]" and ts = "[bare_template, coding_template]"
      and q = "''NOTE ''" and tg = "[]" and xs = "[extra_object, js_of_template coding_template]"]
  from view h have 1: "filtered_js [extra_object, js_of_template coding_template] ''NOTE '' [] =
      Inr (filter (\<lambda>x. filtered [typed_view x] ''NOTE '' [] \<noteq> [])
        [extra_object, js_of_template coding_template])"
    by blast
  from view h have 2: "allTags_js [extra_object, js_of_template coding_template] =
      Inr (map JStr (allTags (map typed_view [extra_object, js_of_template coding_template])))"
    by blast
  from view have 3: "filtered_js (map js_of_template [bare_template, coding_template]) ''NOTE '' [] =
      Inr (map js_of_template (filtered [bare_template, coding_template] ''NOTE '' []))"
    by blast
  from view have 4: "allTags_js (map js_of_template [bare_template, coding_template]) =
      Inr (map JStr (allTags [bare_template, coding_template]))"
    by blast
  show ?thesis
    unfolding 1 2 3 4 k l f g m using a h by simp
qed

text \<open>
  The claim as written fails on a collection that an import accepts (an array is all
  line 193 asks for). The object \<^verbatim>\<open>{"id":"r5","name":"Note","rules":5}\<close> has no
  \<^verbatim>\<open>tags\<close>; it is listed while both queries are empty, and the filter throws as soon
  as a text query is typed, because the number 5 is spread at line 107. The object
  \<^verbatim>\<open>{"id":"t5","name":"Note","tags":5}\<close> makes the filter throw as soon as a tag
  query is typed, because a number has no method \<^verbatim>\<open>some\<close> at line 108.
\<close>

theorem illtyped_field_counterexample:
  "get_prop rules5_object ''tags'' = Inr None \<and>
   filtered_js [rules5_object] [] [] = Inr [rules5_object] \<and>
   filtered_js [rules5_object] ''note'' [] = Inl TypeError \<and>
   filtered_js [tags5_object] [] ''a'' = Inl TypeError"
  by code_simp

end
